theory Spec2Isabelle
  imports Main "HOL-Library.Word"
begin

section \<open>Dynamic translation cache of the multicore PTX back end\<close>

text \<open>
  A shallow embedding of \<^verbatim>\<open>ocelot/executive/implementation/DynamicTranslationCache.cpp\<close>:
  the layout passes over a PTX subkernel (argument, parameter, shared and local memory),
  the call-target pass, and the cache operations \<^verbatim>\<open>registerKernel\<close>,
  \<^verbatim>\<open>getOrInsertTranslation\<close> and \<^verbatim>\<open>_specializeTranslation\<close>.

  Conventions of the embedding.
  \<^item> \<^verbatim>\<open>unsigned int\<close> is a 32-bit word; \<open>+\<close> and \<open>-\<close> wrap around as in C++.
  \<^item> The code under \<^verbatim>\<open>#ifdef HAVE_LLVM\<close> is compiled in.
  \<^item> \<^verbatim>\<open>assert\<close> and \<^verbatim>\<open>assertM\<close> check their condition (the file does not define
    \<^verbatim>\<open>NDEBUG\<close>); a failed assertion ends the process and is the error
    \<open>AssertionFailure\<close>.
  \<^item> \<^verbatim>\<open>x % 0\<close> has no defined result in C++ and traps on the usual targets; it is the
    error \<open>DivisionByZero\<close>.
  \<^item> The headers that declare the IR classes are not among the sources. A class is a
    record of the members the functions read and write, a method without arguments
    (\<^verbatim>\<open>getSize()\<close>, \<^verbatim>\<open>getAlignment()\<close>, \<^verbatim>\<open>bytes()\<close>) is a field holding its result,
    and the static function \<^verbatim>\<open>ir::PTXOperand::bytes\<close> is a parameter \<open>bytesOf\<close> of the
    passes that call it. An enumeration has the enumerators the file names and a few
    of the others; \<open>DataType\<close> is read only through \<open>bytesOf\<close> and is a number.
  \<^item> The members \<^verbatim>\<open>identifier\<close> of an operand and \<^verbatim>\<open>d\<close>, \<^verbatim>\<open>a\<close>, \<^verbatim>\<open>b\<close>, \<^verbatim>\<open>c\<close> of an
    instruction are \<open>identifierName\<close> and \<open>ptx_d\<close>, \<open>ptx_a\<close>, \<open>ptx_b\<close>, \<open>ptx_c\<close> here. The
    offset of an operand is its 32-bit pattern: \<^verbatim>\<open>offset += n\<close> with an unsigned \<open>n\<close>
    gives the same bits whether the member is signed or not.
  \<^item> A container is a list in iteration order; \<^verbatim>\<open>std::unordered_map\<close> used as a lookup
    table is a map, and its \<^verbatim>\<open>insert\<close> keeps an entry that is already present.
\<close>

subsection \<open>The IR, as far as the passes read and write it\<close>

type_synonym uint = "32 word"

datatype error = AssertionFailure string | DivisionByZero

type_synonym DataType = nat

datatype Opcode = Add | Atom | Bar | Bra | Call | Cvta | Ld | Mov | Ret | St | Tex

datatype AddressMode =
  Register | Indirect | Immediate | Address | Label | Special | FunctionName | Invalid

datatype AddressSpace = AddressSpace_Invalid | Const | Global | Local | Param | Shared

datatype Directive = Directive_Const | Directive_Global | Directive_Shared | Directive_Other

datatype Attribute = NoAttribute | Extern | Visible

record PTXOperandBase =
  addressMode :: AddressMode
  identifierName :: string
  offset :: uint
  type :: DataType
  isArgument :: bool
  reg :: uint

record PTXOperand = PTXOperandBase +
  array :: "PTXOperandBase list"

record PTXInstruction =
  opcode :: Opcode
  ptx_d :: PTXOperand
  ptx_a :: PTXOperand
  ptx_b :: PTXOperand
  ptx_c :: PTXOperand
  addressSpace :: AddressSpace
  tailCall :: bool

record BasicBlock =
  instructions :: "PTXInstruction list"

type_synonym ControlFlowGraph = "BasicBlock list"

record Parameter =
  name :: string
  getAlignment :: uint
  getSize :: uint

record Local =
  name :: string
  space :: AddressSpace
  attribute :: Attribute
  alignment :: uint
  type :: DataType
  getSize :: uint

record PTXStatement =
  directive :: Directive
  attribute :: Attribute
  name :: string
  alignment :: uint
  type :: DataType
  bytes :: uint

record GlobalVariable =
  statement :: PTXStatement

text \<open>An entry of \<^verbatim>\<open>Module::kernels()\<close>: \<open>isFunction\<close> is the result of
  \<^verbatim>\<open>function()\<close>.\<close>

record ModuleKernel =
  isFunction :: bool
  arguments :: "Parameter list"

record Module =
  globals :: "(string \<times> GlobalVariable) list"
  kernels :: "(string \<times> ModuleKernel) list"

record PTXKernel =
  arguments :: "Parameter list"
  locals :: "(string \<times> Local) list"
  cfg :: ControlFlowGraph
  module :: Module

record Metadata =
  argumentSize :: uint
  parameterSize :: uint
  sharedSize :: uint
  constantSize :: uint
  localSize :: uint
  warpSize :: int

type_synonym OffsetMap = "string \<rightharpoonup> uint"

subsection \<open>Helpers shared by the passes\<close>

text \<open>\<^verbatim>\<open>pad(size, alignment)\<close>: returns the padding and the updated size (the C++ updates
  \<open>size\<close> through the reference).\<close>

definition pad :: "uint \<Rightarrow> uint \<Rightarrow> error + uint \<times> uint" where
  "pad sz algn =
     (if algn = 0 then Inl DivisionByZero
      else let padding = algn - (sz mod algn);
               padding = (if algn = padding then 0 else padding)
           in Inr (padding, sz + padding))"

text \<open>\<^verbatim>\<open>offsets.insert(std::make_pair(k, v))\<close>: no effect when \<open>k\<close> is present.\<close>

definition map_insert :: "OffsetMap \<Rightarrow> string \<Rightarrow> uint \<Rightarrow> OffsetMap" where
  "map_insert m k v = (case m k of None \<Rightarrow> m(k \<mapsto> v) | Some _ \<Rightarrow> m)"

text \<open>The two nested loops over the blocks of the control-flow graph and the
  instructions of each block, when the body only rewrites the instruction.\<close>

definition map_instructions :: "(PTXInstruction \<Rightarrow> PTXInstruction) \<Rightarrow> ControlFlowGraph \<Rightarrow> ControlFlowGraph" where
  "map_instructions f g = map (\<lambda>block. block\<lparr>instructions := map f (instructions block)\<rparr>) g"

definition all_instructions :: "ControlFlowGraph \<Rightarrow> PTXInstruction list" where
  "all_instructions g = concat (map instructions g)"

text \<open>\<^verbatim>\<open>operands[] = {&ptx.d, &ptx.a, &ptx.b, &ptx.c}\<close>, each rewritten by \<open>f\<close>.\<close>

definition map_operands :: "(PTXOperand \<Rightarrow> PTXOperand) \<Rightarrow> PTXInstruction \<Rightarrow> PTXInstruction" where
  "map_operands f ptx =
     ptx\<lparr>ptx_d := f (ptx_d ptx), ptx_a := f (ptx_a ptx), ptx_b := f (ptx_b ptx), ptx_c := f (ptx_c ptx)\<rparr>"

definition operands :: "PTXInstruction \<Rightarrow> PTXOperand list" where
  "operands ptx = [ptx_d ptx, ptx_a ptx, ptx_b ptx, ptx_c ptx]"

subsection \<open>setupArgumentMemoryReferences\<close>

fun argumentOffsets :: "Parameter list \<Rightarrow> uint \<Rightarrow> OffsetMap \<Rightarrow> error + uint \<times> OffsetMap" where
  "argumentOffsets [] off offsets = Inr (off, offsets)"
| "argumentOffsets (argument # rest) off offsets =
     (case pad off (getAlignment argument) of
        Inl e \<Rightarrow> Inl e
      | Inr (padding, off') \<Rightarrow>
          argumentOffsets rest (off' + Parameter.getSize argument)
            (map_insert offsets (Parameter.name argument) off'))"

definition rewriteArgumentOperand :: "OffsetMap \<Rightarrow> PTXOperand \<Rightarrow> PTXOperand" where
  "rewriteArgumentOperand offsets operand =
     (if addressMode operand = Address then
        (case offsets (identifierName operand) of
           Some argument \<Rightarrow> operand\<lparr>offset := offset operand + argument, isArgument := True\<rparr>
         | None \<Rightarrow> operand)
      else operand)"

definition rewriteArgumentInstruction :: "OffsetMap \<Rightarrow> PTXInstruction \<Rightarrow> PTXInstruction" where
  "rewriteArgumentInstruction offsets ptx =
     (if opcode ptx = Mov \<or> opcode ptx = Ld \<or> opcode ptx = St
      then map_operands (rewriteArgumentOperand offsets) ptx else ptx)"

definition setupArgumentMemoryReferences :: "PTXKernel \<Rightarrow> Metadata \<Rightarrow> error + PTXKernel \<times> Metadata" where
  "setupArgumentMemoryReferences kern metadata =
     (case argumentOffsets (PTXKernel.arguments kern) 0 Map.empty of
        Inl e \<Rightarrow> Inl e
      | Inr (off, offsets) \<Rightarrow>
          Inr (kern\<lparr>cfg := map_instructions (rewriteArgumentInstruction offsets) (cfg kern)\<rparr>,
               metadata\<lparr>argumentSize := off\<rparr>))"

subsection \<open>setupParameterMemoryReferences\<close>

text \<open>The loop over one argument array of a call (\<^verbatim>\<open>ptx.d.array\<close>, then \<^verbatim>\<open>ptx.b.array\<close>):
  pad, assert that the identifier has no offset yet, insert, advance.\<close>

fun callArguments ::
  "(DataType \<Rightarrow> uint) \<Rightarrow> PTXOperandBase list \<Rightarrow> uint \<Rightarrow> OffsetMap \<Rightarrow> error + uint \<times> OffsetMap" where
  "callArguments bytesOf [] off offsets = Inr (off, offsets)"
| "callArguments bytesOf (argument # rest) off offsets =
     (case pad off (bytesOf (PTXOperandBase.type argument)) of
        Inl e \<Rightarrow> Inl e
      | Inr (padding, off') \<Rightarrow>
          if offsets (identifierName argument) \<noteq> None
          then Inl (AssertionFailure ''offsets.count(argument->identifier) == 0'')
          else callArguments bytesOf rest (off' + bytesOf (PTXOperandBase.type argument))
                 (map_insert offsets (identifierName argument) off'))"

text \<open>The first pair of loops, over every instruction in block order; \<open>paramSize\<close> is
  \<^verbatim>\<open>metadata->parameterSize\<close>.\<close>

fun callSites ::
  "(DataType \<Rightarrow> uint) \<Rightarrow> PTXInstruction list \<Rightarrow> uint \<Rightarrow> OffsetMap \<Rightarrow> error + uint \<times> OffsetMap" where
  "callSites bytesOf [] paramSize offsets = Inr (paramSize, offsets)"
| "callSites bytesOf (ptx # rest) paramSize offsets =
     (if opcode ptx \<noteq> Call then callSites bytesOf rest paramSize offsets
      else if identifierName (ptx_a ptx) = ''ptx.warp.divergent''
      then callSites bytesOf rest paramSize offsets
      else
        (case callArguments bytesOf (array (ptx_d ptx)) 0 offsets of
           Inl e \<Rightarrow> Inl e
         | Inr (off, offsets') \<Rightarrow>
             (case callArguments bytesOf (array (ptx_b ptx)) off offsets' of
                Inl e \<Rightarrow> Inl e
              | Inr (off', offsets'') \<Rightarrow>
                  callSites bytesOf rest (max off' paramSize) offsets'')))"

definition rewriteParameterOperand :: "OffsetMap \<Rightarrow> PTXOperand \<Rightarrow> PTXOperand" where
  "rewriteParameterOperand offsets operand =
     (if addressMode operand = Address then
        (case offsets (identifierName operand) of
           Some parameter \<Rightarrow> operand\<lparr>offset := offset operand + parameter, isArgument := False\<rparr>
         | None \<Rightarrow> operand)
      else operand)"

definition rewriteParameterInstruction :: "OffsetMap \<Rightarrow> PTXInstruction \<Rightarrow> PTXInstruction" where
  "rewriteParameterInstruction offsets ptx =
     (if opcode ptx = Mov \<or> opcode ptx = Ld \<or> opcode ptx = St
      then map_operands (rewriteParameterOperand offsets) ptx else ptx)"

text \<open>The last loop: the packed size of the declared parameters of one function of the
  module, each padded to its own size.\<close>

fun declaredParameterBytes :: "Parameter list \<Rightarrow> uint \<Rightarrow> error + uint" where
  "declaredParameterBytes [] bytes' = Inr bytes'"
| "declaredParameterBytes (argument # rest) bytes' =
     (case pad bytes' (Parameter.getSize argument) of
        Inl e \<Rightarrow> Inl e
      | Inr (padding, padded) \<Rightarrow> declaredParameterBytes rest (padded + Parameter.getSize argument))"

fun moduleFunctions :: "(string \<times> ModuleKernel) list \<Rightarrow> uint \<Rightarrow> error + uint" where
  "moduleFunctions [] paramSize = Inr paramSize"
| "moduleFunctions (entry # rest) paramSize =
     (if \<not> isFunction (snd entry) then moduleFunctions rest paramSize
      else
        (case declaredParameterBytes (ModuleKernel.arguments (snd entry)) 0 of
           Inl e \<Rightarrow> Inl e
         | Inr bytes' \<Rightarrow> moduleFunctions rest (max bytes' paramSize)))"

definition setupParameterMemoryReferences ::
  "(DataType \<Rightarrow> uint) \<Rightarrow> PTXKernel \<Rightarrow> Metadata \<Rightarrow> error + PTXKernel \<times> Metadata" where
  "setupParameterMemoryReferences bytesOf kern metadata =
     (case callSites bytesOf (all_instructions (cfg kern)) 0 Map.empty of
        Inl e \<Rightarrow> Inl e
      | Inr (paramSize', offsets) \<Rightarrow>
          (case moduleFunctions (kernels (module kern)) paramSize' of
             Inl e \<Rightarrow> Inl e
           | Inr paramSize'' \<Rightarrow>
               Inr (kern\<lparr>cfg := map_instructions (rewriteParameterInstruction offsets) (cfg kern)\<rparr>,
                    metadata\<lparr>parameterSize := paramSize''\<rparr>)))"

subsection \<open>setupSharedMemoryReferences\<close>

text \<open>The state of the two declaration loops: \<open>offsets\<close>, \<open>external\<close>,
  \<open>externalAlignment\<close> and \<^verbatim>\<open>metadata->sharedSize\<close>.\<close>

type_synonym SharedState = "OffsetMap \<times> string set \<times> uint \<times> uint"

text \<open>The body both loops run for a declaration in the shared space; the loops differ in
  the fields they read and in the text of the assertion. \<open>width\<close> is
  \<^verbatim>\<open>ir::PTXOperand::bytes\<close> of the declared type, \<open>sz\<close> is \<^verbatim>\<open>bytes()\<close> or
  \<^verbatim>\<open>getSize()\<close>.\<close>

definition sharedDeclaration ::
  "string \<Rightarrow> bool \<Rightarrow> string \<Rightarrow> uint \<Rightarrow> uint \<Rightarrow> uint \<Rightarrow> SharedState \<Rightarrow> error + SharedState" where
  "sharedDeclaration message isExtern nm algn width sz st =
     (case st of (offsets, external, externalAlignment, shSize) \<Rightarrow>
        if isExtern then
          if nm \<in> external then Inl (AssertionFailure message)
          else Inr (offsets, insert nm external, max (max externalAlignment algn) width, shSize)
        else
          (case pad shSize algn of
             Inl e \<Rightarrow> Inl e
           | Inr (padding, padded) \<Rightarrow>
               Inr (map_insert offsets nm padded, external, externalAlignment, padded + sz)))"

fun sharedGlobals ::
  "(DataType \<Rightarrow> uint) \<Rightarrow> (string \<times> GlobalVariable) list \<Rightarrow> SharedState \<Rightarrow> error + SharedState" where
  "sharedGlobals bytesOf [] st = Inr st"
| "sharedGlobals bytesOf (global # rest) st =
     (if directive (statement (snd global)) = Directive_Shared then
        (case sharedDeclaration ''External global more than once.''
                (PTXStatement.attribute (statement (snd global)) = Extern)
                (PTXStatement.name (statement (snd global)))
                (PTXStatement.alignment (statement (snd global)))
                (bytesOf (PTXStatement.type (statement (snd global))))
                (bytes (statement (snd global))) st of
           Inl e \<Rightarrow> Inl e
         | Inr st' \<Rightarrow> sharedGlobals bytesOf rest st')
      else sharedGlobals bytesOf rest st)"

fun sharedLocals ::
  "(DataType \<Rightarrow> uint) \<Rightarrow> (string \<times> Local) list \<Rightarrow> SharedState \<Rightarrow> error + SharedState" where
  "sharedLocals bytesOf [] st = Inr st"
| "sharedLocals bytesOf (local # rest) st =
     (if space (snd local) = Shared then
        (case sharedDeclaration ''external.count(local->second.name) == 0''
                (Local.attribute (snd local) = Extern)
                (Local.name (snd local))
                (Local.alignment (snd local))
                (bytesOf (Local.type (snd local)))
                (Local.getSize (snd local)) st of
           Inl e \<Rightarrow> Inl e
         | Inr st' \<Rightarrow> sharedLocals bytesOf rest st')
      else sharedLocals bytesOf rest st)"

text \<open>The loop over the instructions. An Address operand naming an external entry is
  pushed on \<open>externalOperands\<close> and skipped; one naming a packed entry is moved by the
  entry's offset and sets the address space of the instruction.\<close>

definition rewriteSharedOperand :: "string set \<Rightarrow> OffsetMap \<Rightarrow> PTXOperand \<Rightarrow> PTXOperand" where
  "rewriteSharedOperand external offsets operand =
     (if addressMode operand = Address then
        if identifierName operand \<in> external then operand
        else
          (case offsets (identifierName operand) of
             Some off \<Rightarrow> operand\<lparr>offset := offset operand + off\<rparr>
           | None \<Rightarrow> operand)
      else operand)"

definition mapsSharedLabel :: "string set \<Rightarrow> OffsetMap \<Rightarrow> PTXOperand \<Rightarrow> bool" where
  "mapsSharedLabel external offsets operand =
     (addressMode operand = Address \<and> identifierName operand \<notin> external \<and>
      offsets (identifierName operand) \<noteq> None)"

definition rewriteSharedInstruction :: "string set \<Rightarrow> OffsetMap \<Rightarrow> PTXInstruction \<Rightarrow> PTXInstruction" where
  "rewriteSharedInstruction external offsets ptx =
     (if opcode ptx = Mov \<or> opcode ptx = Ld \<or> opcode ptx = St \<or> opcode ptx = Cvta
      then (map_operands (rewriteSharedOperand external offsets) ptx)
             \<lparr>addressSpace := (if list_ex (mapsSharedLabel external offsets) (operands ptx)
                                then Shared else addressSpace ptx)\<rparr>
      else ptx)"

text \<open>The last loop adds the padded \<open>sharedSize\<close> to every operand on \<open>externalOperands\<close>.
  The list holds pointers to the operands that passed the test of the loop above (an
  Address operand of a \<open>Mov\<close>, \<open>Ld\<close>, \<open>St\<close> or \<open>Cvta\<close> whose identifier is in \<open>external\<close>),
  each once; that loop leaves these operands and the opcode as they were, so the model
  finds them again by the same test.\<close>

definition isExternalOperand :: "string set \<Rightarrow> PTXOperand \<Rightarrow> bool" where
  "isExternalOperand external operand =
     (addressMode operand = Address \<and> identifierName operand \<in> external)"

definition mapExternalInstruction :: "string set \<Rightarrow> uint \<Rightarrow> PTXInstruction \<Rightarrow> PTXInstruction" where
  "mapExternalInstruction external shSize ptx =
     (if opcode ptx = Mov \<or> opcode ptx = Ld \<or> opcode ptx = St \<or> opcode ptx = Cvta
      then map_operands (\<lambda>operand. if isExternalOperand external operand
                                   then operand\<lparr>offset := offset operand + shSize\<rparr> else operand) ptx
      else ptx)"

definition setupSharedMemoryReferences ::
  "(DataType \<Rightarrow> uint) \<Rightarrow> PTXKernel \<Rightarrow> Metadata \<Rightarrow> error + PTXKernel \<times> Metadata" where
  "setupSharedMemoryReferences bytesOf kern metadata =
     (case sharedGlobals bytesOf (globals (module kern)) (Map.empty, {}, 1, 0) of
        Inl e \<Rightarrow> Inl e
      | Inr st \<Rightarrow>
          (case sharedLocals bytesOf (locals kern) st of
             Inl e \<Rightarrow> Inl e
           | Inr (offsets, external, externalAlignment, shSize) \<Rightarrow>
               (case pad shSize externalAlignment of
                  Inl e \<Rightarrow> Inl e
                | Inr (padding, padded) \<Rightarrow>
                    Inr (kern\<lparr>cfg := map_instructions (mapExternalInstruction external padded)
                                 (map_instructions (rewriteSharedInstruction external offsets) (cfg kern))\<rparr>,
                         metadata\<lparr>sharedSize := padded\<rparr>))))"

subsection \<open>setupLocalMemoryReferences\<close>

text \<open>The state of the layout: \<^verbatim>\<open>metadata->localSize\<close> and \<open>offsets\<close>. \<open>andThen\<close> runs the
  next statement unless the previous one failed.\<close>

type_synonym LocalState = "uint \<times> OffsetMap"

definition andThen :: "error + 'a \<Rightarrow> ('a \<Rightarrow> error + 'b) \<Rightarrow> error + 'b" where
  "andThen r f = (case r of Inl e \<Rightarrow> Inl e | Inr x \<Rightarrow> f x)"

text \<open>\<^verbatim>\<open>if (local->second.space == Local) { pad; insert; localSize += getSize(); }\<close>, the
  block that places the barrier slot, every ordinary local and the spill area.\<close>

definition placeLocal :: "Local \<Rightarrow> LocalState \<Rightarrow> error + LocalState" where
  "placeLocal local st =
     (case st of (lSize, offsets) \<Rightarrow>
        if space local = Local then
          (case pad lSize (Local.alignment local) of
             Inl e \<Rightarrow> Inl e
           | Inr (padding, padded) \<Rightarrow>
               Inr (padded + Local.getSize local, map_insert offsets (Local.name local) padded))
        else Inr st)"

text \<open>\<^verbatim>\<open>kernel.locals.find(key)\<close>, followed by \<open>placeLocal\<close> when the key is present.\<close>

definition placeNamedLocal :: "string \<Rightarrow> (string \<times> Local) list \<Rightarrow> LocalState \<Rightarrow> error + LocalState" where
  "placeNamedLocal key ls st =
     (case map_of ls key of None \<Rightarrow> Inr st | Some local \<Rightarrow> placeLocal local st)"

text \<open>A reserved slot of \<^verbatim>\<open>sizeof(int)\<close> bytes, 4 on the targets of the back end.\<close>

definition reservedSlot :: "string \<Rightarrow> LocalState \<Rightarrow> error + LocalState" where
  "reservedSlot nm st =
     (case st of (lSize, offsets) \<Rightarrow>
        (case pad lSize 4 of
           Inl e \<Rightarrow> Inl e
         | Inr (padding, padded) \<Rightarrow> Inr (padded + 4, map_insert offsets nm padded)))"

fun ordinaryLocals :: "(string \<times> Local) list \<Rightarrow> LocalState \<Rightarrow> error + LocalState" where
  "ordinaryLocals [] st = Inr st"
| "ordinaryLocals (local # rest) st =
     (if fst local = ''_Zocelot_barrier_next_kernel'' then ordinaryLocals rest st
      else if fst local = ''_Zocelot_spill_area'' then ordinaryLocals rest st
      else if fst local = ''_Zocelot_resume_point'' then ordinaryLocals rest st
      else if fst local = ''_Zocelot_resume_status'' then ordinaryLocals rest st
      else andThen (placeLocal (snd local) st) (ordinaryLocals rest))"

text \<open>The layout part of the pass, up to the loop over the instructions.\<close>

definition localOffsets :: "PTXKernel \<Rightarrow> error + LocalState" where
  "localOffsets kern =
     andThen (placeNamedLocal ''_Zocelot_barrier_next_kernel'' (locals kern) (0, Map.empty)) (\<lambda>st.
     andThen (reservedSlot ''_Zocelot_resume_status'' st) (\<lambda>st.
     andThen (reservedSlot ''_Zocelot_resume_point'' st) (\<lambda>st.
     andThen (ordinaryLocals (locals kern) st) (\<lambda>st.
     placeNamedLocal ''_Zocelot_spill_area'' (locals kern) st))))"

definition rewriteLocalOperand :: "OffsetMap \<Rightarrow> PTXOperand \<Rightarrow> PTXOperand" where
  "rewriteLocalOperand offsets operand =
     (if addressMode operand = Address then
        (case offsets (identifierName operand) of
           Some off \<Rightarrow> operand\<lparr>offset := offset operand + off\<rparr>
         | None \<Rightarrow> operand)
      else operand)"

definition mapsLocalLabel :: "OffsetMap \<Rightarrow> PTXOperand \<Rightarrow> bool" where
  "mapsLocalLabel offsets operand =
     (addressMode operand = Address \<and> offsets (identifierName operand) \<noteq> None)"

definition rewriteLocalInstruction :: "OffsetMap \<Rightarrow> PTXInstruction \<Rightarrow> PTXInstruction" where
  "rewriteLocalInstruction offsets ptx =
     (if opcode ptx = Mov \<or> opcode ptx = Ld \<or> opcode ptx = St
      then (map_operands (rewriteLocalOperand offsets) ptx)
             \<lparr>addressSpace := (if list_ex (mapsLocalLabel offsets) (operands ptx)
                                then Local else addressSpace ptx)\<rparr>
      else ptx)"

definition setupLocalMemoryReferences :: "PTXKernel \<Rightarrow> Metadata \<Rightarrow> error + PTXKernel \<times> Metadata" where
  "setupLocalMemoryReferences kern metadata =
     (case localOffsets kern of
        Inl e \<Rightarrow> Inl e
      | Inr (lSize, offsets) \<Rightarrow>
          Inr (kern\<lparr>cfg := map_instructions (rewriteLocalInstruction offsets) (cfg kern)\<rparr>,
               metadata\<lparr>localSize := lSize\<rparr>))"

subsection \<open>setupCallTargets\<close>

text \<open>The pass reads the instructions and writes nothing (the assignment to
  \<^verbatim>\<open>ptx.reentryPoint\<close> is commented out); its parameter \<open>translationCache\<close> is never
  read. The result is the kernel as it was, or the failed \<^verbatim>\<open>assert(0)\<close>.\<close>

fun callTargets :: "PTXInstruction list \<Rightarrow> error + unit" where
  "callTargets [] = Inr ()"
| "callTargets (ptx # rest) =
     (if opcode ptx \<noteq> Call \<and> opcode ptx \<noteq> Mov then callTargets rest
      else if tailCall ptx then callTargets rest
      else if addressMode (ptx_a ptx) = FunctionName then
        (if identifierName (ptx_a ptx) = ''ptx.warp.divergent'' then callTargets rest
         else Inl (AssertionFailure ''arbitrary function calls not yet supported''))
      else callTargets rest)"

definition setupCallTargets :: "PTXKernel \<Rightarrow> 'cache \<Rightarrow> error + PTXKernel" where
  "setupCallTargets kern translationCache =
     (case callTargets (all_instructions (cfg kern)) of Inl e \<Rightarrow> Inl e | Inr u \<Rightarrow> Inr kern)"

subsection \<open>The translation cache\<close>

text \<open>
  Objects created with \<^verbatim>\<open>new\<close> live in a store indexed by their address; an address is a
  natural number, 0 is the null pointer, and \<open>nextObject\<close> is the next fresh address.
  The class declaration is not among the sources: an identifier that a member function
  uses and that is neither a parameter nor a local of that function (\<^verbatim>\<open>warpSize\<close> and
  \<^verbatim>\<open>optimizationLevel\<close> in \<^verbatim>\<open>getOrInsertTranslation\<close>, \<^verbatim>\<open>subkernelid\<close>, \<^verbatim>\<open>optimization\<close>
  and \<^verbatim>\<open>device\<close> in \<^verbatim>\<open>_specializeTranslation\<close>, \<^verbatim>\<open>subkernelId\<close> in \<^verbatim>\<open>_translateKernel\<close>) is a
  data member of the cache, with a value of its own. C++ names are case sensitive:
  \<^verbatim>\<open>warpSize\<close> is not the parameter \<^verbatim>\<open>warpsize\<close>, and \<^verbatim>\<open>subkernelid\<close> is not the parameter
  \<^verbatim>\<open>subkernelId\<close>.

  Dereferencing a null pointer is the error \<open>NullDereference\<close>. A call into LLVM or into
  the device either returns the answer the environment (\<open>Backend\<close>, \<open>Frontend\<close>) gives or
  throws, as the environment says.
\<close>

type_synonym pointer = nat

type_synonym SubkernelId = nat

datatype fault = Assertion string | NullDereference

record Translation =
  llvmFunction :: pointer
  functionPtr :: pointer
  metadataPtr :: "Metadata option"

record TranslatedSubkernel =
  llvmFunction :: pointer
  metadataPtr :: "Metadata option"
  subkernelPtr :: "PTXKernel option"
  translationsMap :: "int \<rightharpoonup> pointer"

record TranslatedKernel =
  llvmModule :: pointer
  kernelPtr :: pointer
  metadataPtr :: "Metadata option"
  localMemorySize :: uint
  sharedMemorySize :: uint
  subkernels :: "SubkernelId \<rightharpoonup> TranslatedSubkernel"

record ModuleMetadata =
  ptxModule :: pointer
  device :: pointer
  kernels :: "string \<rightharpoonup> pointer"

text \<open>\<^verbatim>\<open>DynamicMulticoreKernel\<close>: \<open>address\<close> is the pointer the cache receives, \<open>moduleName\<close>
  is \<^verbatim>\<open>module()->name\<close>, \<open>subkernels\<close> is \<^verbatim>\<open>kernelGraph()->subkernels\<close> in iteration order.
  The cache keeps the pointer; \<open>kernelObjects\<close> below is the store it points into, next to
  the stores \<open>translatedKernels\<close> and \<open>translationObjects\<close> of the objects the cache
  creates.\<close>

record DynamicMulticoreKernel =
  address :: pointer
  name :: string
  moduleName :: string
  subkernels :: "(SubkernelId \<times> PTXKernel) list"

text \<open>The cache. \<open>modules\<close> to \<open>device\<close> are data members of the class;
  \<open>translatedKernels\<close>, \<open>translationObjects\<close> and \<open>kernelObjects\<close> are the stores of the
  objects that the pointers refer to, \<open>nextObject\<close> is the next fresh address, and
  \<open>pipelineRuns\<close> is a trace kept for the statements (see \<open>translateSubkernels\<close>).\<close>

record DynamicTranslationCache =
  modules :: "string \<rightharpoonup> ModuleMetadata"
  kernels :: "pointer \<rightharpoonup> pointer"
  subkernelsToKernel :: "SubkernelId \<rightharpoonup> pointer"
  translationCache :: "SubkernelId \<rightharpoonup> (int \<rightharpoonup> pointer)"
  warpSize :: int
  subkernelid :: SubkernelId
  subkernelId :: SubkernelId
  device :: pointer
  translatedKernels :: "pointer \<rightharpoonup> TranslatedKernel"
  translationObjects :: "pointer \<rightharpoonup> Translation"
  kernelObjects :: "pointer \<rightharpoonup> DynamicMulticoreKernel"
  nextObject :: pointer
  pipelineRuns :: "SubkernelId list"

text \<open>What a member function does: it returns a value and leaves a cache, it throws and
  leaves a cache (after its \<^verbatim>\<open>catch\<close> blocks have run), or the process ends.\<close>

datatype 'a outcome =
  Returns 'a DynamicTranslationCache
| Throws string DynamicTranslationCache
| Aborts fault

datatype BackendStep = CloneAndOptimize | AddModule | Link | Jit

text \<open>The answers of LLVM and of the device during one specialization. \<open>raises step\<close>: the
  external call of that step throws. \<open>verifyAfterOptimize\<close> and \<open>verifyFinal\<close> are the results
  of the two calls of \<^verbatim>\<open>llvm::verifyModule\<close>, which returns true when the module is broken.\<close>

record Backend =
  raises :: "BackendStep \<Rightarrow> bool"
  cloneFunction :: pointer
  verifyAfterOptimize :: bool
  getNamedValue :: "string \<Rightarrow> pointer"
  getGlobalAllocation :: "string \<Rightarrow> pointer"
  getPointerToFunction :: pointer
  verifyFinal :: bool

text \<open>The body of the \<^verbatim>\<open>try\<close> block of \<^verbatim>\<open>_translateKernel\<close> for one subkernel, up to the
  stores into the translated kernel: metadata, layout passes, call targets, the
  translator, the assembler and the parser. The environment says how it ends.\<close>

datatype pipelineResult =
  Translated pointer Metadata
| PipelineThrows string
| PipelineAborts fault

record Frontend =
  translateSubkernel :: "SubkernelId \<Rightarrow> PTXKernel \<Rightarrow> pipelineResult"

definition loadModule :: "string \<Rightarrow> pointer \<Rightarrow> pointer \<Rightarrow> DynamicTranslationCache \<Rightarrow> bool outcome" where
  "loadModule moduleName' module' device' s =
     Returns True
       (s\<lparr>modules := (modules s)(moduleName' \<mapsto>
            \<lparr>ptxModule = module', ModuleMetadata.device = device', ModuleMetadata.kernels = Map.empty\<rparr>)\<rparr>)"

text \<open>The loop of \<^verbatim>\<open>_translateKernel\<close> over the subkernels of the kernel. \<open>pipelineRuns\<close> is
  not a member of the class: it records, for the statements about repeated
  registration, each subkernel the pipeline is run for. The translated subkernel is
  stored under the member \<^verbatim>\<open>subkernelId\<close>.\<close>

fun translateSubkernels ::
  "Frontend \<Rightarrow> pointer \<Rightarrow> (SubkernelId \<times> PTXKernel) list \<Rightarrow> DynamicTranslationCache \<Rightarrow> unit outcome" where
  "translateSubkernels env translatedKernel [] s = Returns () s"
| "translateSubkernels env translatedKernel (subkernel_it # rest) s =
     (let s1 = s\<lparr>subkernelsToKernel := (subkernelsToKernel s)(fst subkernel_it \<mapsto> translatedKernel),
                 pipelineRuns := pipelineRuns s @ [fst subkernel_it]\<rparr>
      in case translateSubkernel env (fst subkernel_it) (snd subkernel_it) of
           PipelineAborts e \<Rightarrow> Aborts e
         | PipelineThrows message \<Rightarrow> Throws message s1
         | Translated function' metadata \<Rightarrow>
             (case translatedKernels s1 translatedKernel of
                None \<Rightarrow> Aborts NullDereference
              | Some tk \<Rightarrow>
                  translateSubkernels env translatedKernel rest
                    (s1\<lparr>translatedKernels := (translatedKernels s1)(translatedKernel \<mapsto>
                          tk\<lparr>TranslatedKernel.subkernels :=
                                (TranslatedKernel.subkernels tk)(subkernelId s1 \<mapsto>
                                   \<lparr>TranslatedSubkernel.llvmFunction = function',
                                    TranslatedSubkernel.metadataPtr = Some metadata,
                                    subkernelPtr = None, translationsMap = Map.empty\<rparr>),
                              TranslatedKernel.metadataPtr := Some metadata\<rparr>)\<rparr>)))"

definition translateKernel :: "Frontend \<Rightarrow> pointer \<Rightarrow> DynamicTranslationCache \<Rightarrow> unit outcome" where
  "translateKernel env translatedKernel s =
     (case translatedKernels s translatedKernel of
        None \<Rightarrow> Aborts NullDereference
      | Some tk \<Rightarrow>
          (case kernelObjects s (kernelPtr tk) of
             None \<Rightarrow> Aborts NullDereference
           | Some kernel' \<Rightarrow>
               translateSubkernels env translatedKernel (DynamicMulticoreKernel.subkernels kernel') s))"

text \<open>\<^verbatim>\<open>registerKernel\<close>. The new translated kernel is stored in the member \<open>kernels\<close>, under
  the pointer; the test reads \<open>module.kernels\<close>, under the name.\<close>

definition registerKernel ::
  "Frontend \<Rightarrow> DynamicMulticoreKernel \<Rightarrow> DynamicTranslationCache \<Rightarrow> unit outcome" where
  "registerKernel env kernel' s =
     (case modules s (moduleName kernel') of
        None \<Rightarrow> Aborts (Assertion ''module_it != modules.end()'')
      | Some module' \<Rightarrow>
          (case ModuleMetadata.kernels module' (DynamicMulticoreKernel.name kernel') of
             None \<Rightarrow>
               (let translatedKernel = nextObject s;
                    s1 = s\<lparr>translatedKernels := (translatedKernels s)(translatedKernel \<mapsto>
                              \<lparr>llvmModule = Suc translatedKernel, kernelPtr = address kernel',
                               TranslatedKernel.metadataPtr = None, localMemorySize = 0,
                               sharedMemorySize = 0, TranslatedKernel.subkernels = Map.empty\<rparr>),
                            kernelObjects := (kernelObjects s)(address kernel' \<mapsto> kernel'),
                            nextObject := translatedKernel + 2,
                            DynamicTranslationCache.kernels :=
                              (DynamicTranslationCache.kernels s)(address kernel' \<mapsto> translatedKernel)\<rparr>
                in translateKernel env translatedKernel s1)
           | Some translatedKernel \<Rightarrow> Returns () s))"

text \<open>\<^verbatim>\<open>linkLLVMModule\<close>: the three assertions for every global variable of the module.\<close>

fun linkLLVMModule :: "Backend \<Rightarrow> (string \<times> GlobalVariable) list \<Rightarrow> pointer \<Rightarrow> fault option" where
  "linkLLVMModule env [] device' = None"
| "linkLLVMModule env (global # rest) device' =
     (if directive (statement (snd global)) = Directive_Global then
        if device' = 0 then Some (Assertion ''device != 0'')
        else if getNamedValue env (fst global) = 0
        then Some (Assertion ''Global variable not found in llvm module.'')
        else if getGlobalAllocation env (fst global) = 0 then Some (Assertion ''allocation != 0'')
        else linkLLVMModule env rest device'
      else linkLLVMModule env rest device')"

text \<open>\<^verbatim>\<open>_specializeTranslation\<close>, with \<^verbatim>\<open>cloneAndOptimizeTranslation\<close> inlined (the first
  three tests). \<open>unwound\<close> is the cache the \<^verbatim>\<open>catch\<close> block leaves: the entry that
  \<^verbatim>\<open>translatedKernel.subkernels[subkernelId]\<close> may have created stays, the new
  translation is deleted. In \<^verbatim>\<open>cloneAndOptimizeTranslation\<close> a failed verification
  reaches \<^verbatim>\<open>assert(0 && "quitting")\<close> before its \<^verbatim>\<open>throw\<close>. The last verification only
  prints. The parameters \<^verbatim>\<open>optimizationLevel\<close> and \<^verbatim>\<open>specialization\<close> are not read.
  The clone step reads the members \<^verbatim>\<open>scalarTranslation\<close> and \<^verbatim>\<open>llvmFunction\<close> of the
  translated kernel, which are declared in the missing header and written by no
  function of the file; what it makes of them is part of the answer of the backend
  (\<open>raises CloneAndOptimize\<close>, \<open>cloneFunction\<close>).\<close>

definition specializeTranslation ::
  "Backend \<Rightarrow> pointer \<Rightarrow> SubkernelId \<Rightarrow> int \<Rightarrow> DynamicTranslationCache \<Rightarrow> pointer outcome" where
  "specializeTranslation env translatedKernel subkernelId' warpSize' s =
     (case translatedKernels s translatedKernel of
        None \<Rightarrow> Aborts NullDereference
      | Some tk \<Rightarrow>
          (let subkernel =
                 (case TranslatedKernel.subkernels tk subkernelId' of
                    None \<Rightarrow> \<lparr>TranslatedSubkernel.llvmFunction = 0, TranslatedSubkernel.metadataPtr = None,
                              subkernelPtr = None, translationsMap = Map.empty\<rparr>
                  | Some subkernel \<Rightarrow> subkernel);
               tk1 = tk\<lparr>TranslatedKernel.subkernels :=
                         (TranslatedKernel.subkernels tk)(subkernelId' \<mapsto> subkernel)\<rparr>;
               translation = nextObject s;
               unwound = s\<lparr>translatedKernels := (translatedKernels s)(translatedKernel \<mapsto> tk1),
                           nextObject := Suc translation\<rparr>
           in
             if raises env CloneAndOptimize then Throws ''cloneAndOptimizeTranslation'' unwound
             else if cloneFunction env = 0 then Aborts NullDereference
             else if verifyAfterOptimize env then Aborts (Assertion ''quitting'')
             else if raises env AddModule then Throws ''addModule'' unwound
             else
               (case subkernelPtr subkernel of
                  None \<Rightarrow> Aborts NullDereference
                | Some kern \<Rightarrow>
                    if raises env Link then Throws ''linkLLVMModule'' unwound
                    else
                      (case linkLLVMModule env (globals (module kern)) (DynamicTranslationCache.device s) of
                         Some e \<Rightarrow> Aborts e
                       | None \<Rightarrow>
                           if raises env Jit then Throws ''getPointerToFunction'' unwound
                           else
                             Returns translation
                               (s\<lparr>translatedKernels := (translatedKernels s)(translatedKernel \<mapsto>
                                     tk1\<lparr>TranslatedKernel.subkernels :=
                                           (TranslatedKernel.subkernels tk1)(subkernelId' \<mapsto>
                                              subkernel\<lparr>translationsMap :=
                                                (translationsMap subkernel)(warpSize' \<mapsto> translation)\<rparr>)\<rparr>),
                                   translationObjects := (translationObjects s)(translation \<mapsto>
                                     \<lparr>Translation.llvmFunction = cloneFunction env,
                                      functionPtr = getPointerToFunction env,
                                      Translation.metadataPtr = TranslatedSubkernel.metadataPtr subkernel\<rparr>),
                                   nextObject := Suc translation,
                                   translationCache := (translationCache s)(subkernelid s \<mapsto>
                                     (case translationCache s (subkernelid s) of
                                        None \<Rightarrow> Map.empty | Some row \<Rightarrow> row)
                                     (warpSize' \<mapsto> translation))\<rparr>)))))"

text \<open>The two nested \<^verbatim>\<open>find\<close> calls of \<^verbatim>\<open>getOrInsertTranslation\<close>: the cached pointer, or
  null.\<close>

definition lookupTranslation :: "DynamicTranslationCache \<Rightarrow> SubkernelId \<Rightarrow> int \<Rightarrow> pointer" where
  "lookupTranslation s subkernelId' warpsize =
     (case translationCache s subkernelId' of
        None \<Rightarrow> 0
      | Some row \<Rightarrow> (case row warpsize of None \<Rightarrow> 0 | Some warp_it \<Rightarrow> warp_it))"

text \<open>\<^verbatim>\<open>getOrInsertTranslation\<close>: the lookup reads the parameters \<open>subkernelId'\<close> and
  \<open>warpsize\<close>; on a miss the call passes the member \<open>warpSize\<close>.\<close>

definition getOrInsertTranslation ::
  "Backend \<Rightarrow> int \<Rightarrow> SubkernelId \<Rightarrow> nat \<Rightarrow> DynamicTranslationCache \<Rightarrow> pointer outcome" where
  "getOrInsertTranslation env warpsize subkernelId' specialization s =
     (let translation = lookupTranslation s subkernelId' warpsize
      in if translation \<noteq> 0 then Returns translation s
         else
           (case subkernelsToKernel s subkernelId' of
              None \<Rightarrow> Aborts NullDereference
            | Some translatedKernel \<Rightarrow>
                specializeTranslation env translatedKernel subkernelId'
                  (DynamicTranslationCache.warpSize s) s))"

section \<open>Notions of the statements, and example inputs\<close>

subsection \<open>Sequential layout\<close>

text \<open>
  The layout rule in unbounded arithmetic. The padding for a running size \<open>s\<close> and an
  alignment \<open>a\<close> is \<open>a - s mod a\<close>, or 0 when that is \<open>a\<close>. An entry is a pair of an
  alignment and a size; entries are placed one after the other, each padded to its
  alignment: \<open>layout_offsets\<close> are the offsets, \<open>padded_sizes\<close> the sizes with their padding,
  \<open>layout_size\<close> the size of the region. \<open>cfg_rel R\<close> relates two control-flow graphs of the
  same shape whose instructions are related by \<open>R\<close>, position by position; \<open>insert_all\<close>
  is the offset table of a list of names and offsets.
\<close>

definition padding_spec :: "nat \<Rightarrow> nat \<Rightarrow> nat" where
  "padding_spec s a = (if a - s mod a = a then 0 else a - s mod a)"

fun layout_size :: "(nat \<times> nat) list \<Rightarrow> nat \<Rightarrow> nat" where
  "layout_size [] s = s"
| "layout_size ((a, n) # es) s = layout_size es (s + padding_spec s a + n)"

fun layout_offsets :: "(nat \<times> nat) list \<Rightarrow> nat \<Rightarrow> nat list" where
  "layout_offsets [] s = []"
| "layout_offsets ((a, n) # es) s = (s + padding_spec s a) # layout_offsets es (s + padding_spec s a + n)"

fun padded_sizes :: "(nat \<times> nat) list \<Rightarrow> nat \<Rightarrow> nat list" where
  "padded_sizes [] s = []"
| "padded_sizes ((a, n) # es) s = (padding_spec s a + n) # padded_sizes es (s + padding_spec s a + n)"

definition argument_entries :: "Parameter list \<Rightarrow> (nat \<times> nat) list" where
  "argument_entries args = map (\<lambda>p. (unat (getAlignment p), unat (Parameter.getSize p))) args"

definition cfg_rel :: "(PTXInstruction \<Rightarrow> PTXInstruction \<Rightarrow> bool) \<Rightarrow> ControlFlowGraph \<Rightarrow> ControlFlowGraph \<Rightarrow> bool" where
  "cfg_rel R g g' = list_all2 (\<lambda>block block'. list_all2 R (instructions block) (instructions block')) g g'"

definition insert_all :: "(string \<times> nat) list \<Rightarrow> OffsetMap \<Rightarrow> OffsetMap" where
  "insert_all kvs m = fold (\<lambda>(k, v) m. map_insert m k (of_nat v)) kvs m"

subsection \<open>Example inputs for the argument pass\<close>

definition noOperand :: PTXOperand where
  "noOperand = \<lparr>addressMode = Invalid, identifierName = [], offset = 0, PTXOperandBase.type = 0,
     isArgument = False, reg = 0, array = []\<rparr>"

definition addressOperand :: "string \<Rightarrow> uint \<Rightarrow> PTXOperand" where
  "addressOperand n off = noOperand\<lparr>addressMode := Address, identifierName := n, offset := off\<rparr>"

definition instruction :: "Opcode \<Rightarrow> PTXOperand \<Rightarrow> PTXOperand \<Rightarrow> PTXInstruction" where
  "instruction opc dst src = \<lparr>opcode = opc, ptx_d = dst, ptx_a = src, ptx_b = noOperand, ptx_c = noOperand,
     addressSpace = AddressSpace_Invalid, tailCall = False\<rparr>"

definition emptyModule :: Module where
  "emptyModule = \<lparr>globals = [], Module.kernels = []\<rparr>"

definition metadata0 :: Metadata where
  "metadata0 = \<lparr>argumentSize = 0, parameterSize = 0, sharedSize = 0, constantSize = 0, localSize = 0, Metadata.warpSize = 1\<rparr>"

definition int_double_arguments :: "Parameter list" where
  "int_double_arguments = [\<lparr>Parameter.name = ''i'', getAlignment = 4, Parameter.getSize = 4\<rparr>,
                           \<lparr>Parameter.name = ''x'', getAlignment = 8, Parameter.getSize = 8\<rparr>]"

definition int_double_kernel :: "Opcode \<Rightarrow> PTXKernel" where
  "int_double_kernel opc = \<lparr>PTXKernel.arguments = int_double_arguments, locals = [],
     cfg = [\<lparr>instructions = [instruction opc noOperand (addressOperand ''x'' 0)]\<rparr>], module = emptyModule\<rparr>"

subsection \<open>Call sites and packed sizes\<close>

text \<open>
  The padding rule and the packed size of a list of widths in 32-bit arithmetic, as the
  parameter pass computes them; the call sites of a kernel (calls of the intrinsic
  excluded), their argument operands, and the functions of the module.
\<close>

definition word_padding :: "uint \<Rightarrow> uint \<Rightarrow> uint" where
  "word_padding s a = (if a - s mod a = a then 0 else a - s mod a)"


definition is_call_site :: "PTXInstruction \<Rightarrow> bool" where
  "is_call_site ptx = (opcode ptx = Call \<and> identifierName (ptx_a ptx) \<noteq> ''ptx.warp.divergent'')"


definition call_arguments :: "PTXInstruction \<Rightarrow> PTXOperandBase list" where
  "call_arguments ptx = array (ptx_d ptx) @ array (ptx_b ptx)"




definition call_argument_identifiers :: "PTXInstruction list \<Rightarrow> string list" where
  "call_argument_identifiers instrs =
     concat (map (\<lambda>ptx. map identifierName (call_arguments ptx)) (filter is_call_site instrs))"

definition call_argument_widths :: "(DataType \<Rightarrow> uint) \<Rightarrow> PTXInstruction list \<Rightarrow> uint list" where
  "call_argument_widths bytesOf instrs =
     concat (map (\<lambda>ptx. map (\<lambda>argument. bytesOf (PTXOperandBase.type argument)) (call_arguments ptx))
       (filter is_call_site instrs))"

subsection \<open>Example inputs for the parameter pass\<close>

definition functionOperand :: "string \<Rightarrow> PTXOperand" where
  "functionOperand n = noOperand\<lparr>addressMode := FunctionName, identifierName := n\<rparr>"

definition argumentListOperand :: "string list \<Rightarrow> PTXOperand" where
  "argumentListOperand ns = noOperand\<lparr>array :=
     map (\<lambda>n. \<lparr>addressMode = Address, identifierName = n, offset = 0, PTXOperandBase.type = 0,
                isArgument = False, reg = 0\<rparr>) ns\<rparr>"

definition callInstruction :: "string \<Rightarrow> string list \<Rightarrow> string list \<Rightarrow> PTXInstruction" where
  "callInstruction f outs ins = \<lparr>opcode = Call, ptx_d = argumentListOperand outs, ptx_a = functionOperand f,
     ptx_b = argumentListOperand ins, ptx_c = noOperand, addressSpace = AddressSpace_Invalid,
     tailCall = False\<rparr>"

definition bytes4 :: "DataType \<Rightarrow> uint" where
  "bytes4 t = 4"

definition two_function_module :: Module where
  "two_function_module = \<lparr>globals = [], kernels =
     [(''entry'', \<lparr>isFunction = False, ModuleKernel.arguments =
         [\<lparr>Parameter.name = ''p'', getAlignment = 8, Parameter.getSize = 8\<rparr>,
          \<lparr>Parameter.name = ''q'', getAlignment = 8, Parameter.getSize = 8\<rparr>,
          \<lparr>Parameter.name = ''r'', getAlignment = 8, Parameter.getSize = 8\<rparr>]\<rparr>),
      (''f'', \<lparr>isFunction = True, ModuleKernel.arguments =
         [\<lparr>Parameter.name = ''u'', getAlignment = 4, Parameter.getSize = 4\<rparr>,
          \<lparr>Parameter.name = ''v'', getAlignment = 8, Parameter.getSize = 8\<rparr>]\<rparr>)]\<rparr>"

definition call_kernel :: "string list \<Rightarrow> PTXKernel" where
  "call_kernel ins = \<lparr>PTXKernel.arguments = [], locals = [],
     cfg = [\<lparr>instructions =
       [callInstruction ''ptx.warp.divergent'' [] [''w0'', ''w1'', ''w2'', ''w3'', ''w4''],
        callInstruction ''f'' [''ret''] ins,
        instruction St (addressOperand ''b'' 0) noOperand]\<rparr>],
     module = two_function_module\<rparr>"

text \<open>The offset table the parameter pass builds for a kernel.\<close>

definition parameterOffsets :: "(DataType \<Rightarrow> uint) \<Rightarrow> PTXKernel \<Rightarrow> OffsetMap" where
  "parameterOffsets bytesOf kern =
     (case callSites bytesOf (all_instructions (cfg kern)) 0 Map.empty of
        Inl e \<Rightarrow> Map.empty | Inr (paramSize, offsets) \<Rightarrow> offsets)"

subsection \<open>Shared declarations\<close>

text \<open>
  A shared declaration as the pass reads it: the text of its assertion, whether it is
  external, its name, alignment, element width and size. \<open>shared_declarations\<close> lists the
  declarations of the module, then those of the subkernel; \<open>runDeclarations\<close> runs the
  body of the two loops over such a list.
\<close>

type_synonym SharedDecl = "string \<times> bool \<times> string \<times> uint \<times> uint \<times> uint"

definition global_declaration :: "(DataType \<Rightarrow> uint) \<Rightarrow> string \<times> GlobalVariable \<Rightarrow> SharedDecl" where
  "global_declaration bytesOf global =
     (''External global more than once.'',
      PTXStatement.attribute (statement (snd global)) = Extern,
      PTXStatement.name (statement (snd global)),
      PTXStatement.alignment (statement (snd global)),
      bytesOf (PTXStatement.type (statement (snd global))),
      bytes (statement (snd global)))"

definition local_declaration :: "(DataType \<Rightarrow> uint) \<Rightarrow> string \<times> Local \<Rightarrow> SharedDecl" where
  "local_declaration bytesOf local =
     (''external.count(local->second.name) == 0'',
      Local.attribute (snd local) = Extern,
      Local.name (snd local),
      Local.alignment (snd local),
      bytesOf (Local.type (snd local)),
      Local.getSize (snd local))"

definition shared_declarations :: "(DataType \<Rightarrow> uint) \<Rightarrow> PTXKernel \<Rightarrow> SharedDecl list" where
  "shared_declarations bytesOf kern =
     map (global_declaration bytesOf)
       (filter (\<lambda>global. directive (statement (snd global)) = Directive_Shared) (globals (module kern))) @
     map (local_declaration bytesOf)
       (filter (\<lambda>local. space (snd local) = Shared) (locals kern))"

fun runDeclarations :: "SharedDecl list \<Rightarrow> SharedState \<Rightarrow> error + SharedState" where
  "runDeclarations [] st = Inr st"
| "runDeclarations ((message, isExtern, nm, algn, width, sz) # ds) st =
     (case sharedDeclaration message isExtern nm algn width sz st of
        Inl e \<Rightarrow> Inl e
      | Inr st' \<Rightarrow> runDeclarations ds st')"

definition is_external :: "SharedDecl \<Rightarrow> bool" where
  "is_external d = fst (snd d)"

definition declared_name :: "SharedDecl \<Rightarrow> string" where
  "declared_name d = fst (snd (snd d))"

definition external_names :: "SharedDecl list \<Rightarrow> string list" where
  "external_names ds = map declared_name (filter is_external ds)"

definition external_widths :: "SharedDecl list \<Rightarrow> uint list" where
  "external_widths ds =
     concat (map (\<lambda>(message, isExtern, nm, algn, width, sz). [algn, width]) (filter is_external ds))"

definition external_alignment :: "SharedDecl list \<Rightarrow> uint" where
  "external_alignment ds = Max (insert 1 (set (external_widths ds)))"

definition packed_entries :: "SharedDecl list \<Rightarrow> (nat \<times> nat) list" where
  "packed_entries ds =
     map (\<lambda>(message, isExtern, nm, algn, width, sz). (unat algn, unat sz))
       (filter (\<lambda>d. \<not> is_external d) ds)"

definition shared_example :: "Opcode \<Rightarrow> (string \<times> Local) list \<Rightarrow> PTXKernel" where
  "shared_example opc others =
     \<lparr>PTXKernel.arguments = [],
      locals = (''tile'', \<lparr>Local.name = ''tile'', space = Shared, Local.attribute = NoAttribute,
                   Local.alignment = 4, Local.type = 0, Local.getSize = 20\<rparr>) # others,
      cfg = [\<lparr>instructions = [instruction opc noOperand (addressOperand ''dyn'' 0)]\<rparr>],
      module = \<lparr>globals =
        [(''dyn'', \<lparr>statement = \<lparr>directive = Directive_Shared, PTXStatement.attribute = Extern,
            PTXStatement.name = ''dyn'', PTXStatement.alignment = 16, PTXStatement.type = 0,
            bytes = 0\<rparr>\<rparr>)], Module.kernels = []\<rparr>\<rparr>"

definition extern_dyn_local :: "string \<times> Local" where
  "extern_dyn_local = (''dyn'', \<lparr>Local.name = ''dyn'', space = Shared, Local.attribute = Extern,
     Local.alignment = 8, Local.type = 0, Local.getSize = 0\<rparr>)"

definition unaligned_local :: "string \<times> Local" where
  "unaligned_local = (''raw'', \<lparr>Local.name = ''raw'', space = Shared, Local.attribute = NoAttribute,
     Local.alignment = 0, Local.type = 0, Local.getSize = 4\<rparr>)"

subsection \<open>Slots of local memory\<close>

text \<open>
  A slot is a name, an alignment and a size. \<open>local_slots\<close> lists the slots of a subkernel
  in the order the local pass places them.
\<close>

type_synonym Slot = "string \<times> uint \<times> uint"

definition slot_parameter :: "Slot \<Rightarrow> Parameter" where
  "slot_parameter slot = \<lparr>Parameter.name = fst slot, getAlignment = fst (snd slot),
     Parameter.getSize = snd (snd slot)\<rparr>"

definition local_slot :: "Local \<Rightarrow> Slot" where
  "local_slot local = (Local.name local, Local.alignment local, Local.getSize local)"

definition named_slot :: "string \<Rightarrow> (string \<times> Local) list \<Rightarrow> Slot list" where
  "named_slot key ls =
     (case map_of ls key of
        None \<Rightarrow> []
      | Some local \<Rightarrow> if space local = Local then [local_slot local] else [])"

definition reserved_keys :: "string list" where
  "reserved_keys = [''_Zocelot_barrier_next_kernel'', ''_Zocelot_spill_area'',
     ''_Zocelot_resume_point'', ''_Zocelot_resume_status'']"

definition is_ordinary :: "string \<times> Local \<Rightarrow> bool" where
  "is_ordinary entry = (fst entry \<notin> set reserved_keys \<and> space (snd entry) = Local)"

definition ordinary_slots :: "(string \<times> Local) list \<Rightarrow> Slot list" where
  "ordinary_slots ls = map (\<lambda>entry. local_slot (snd entry)) (filter is_ordinary ls)"

definition local_slots :: "PTXKernel \<Rightarrow> Slot list" where
  "local_slots kern =
     named_slot ''_Zocelot_barrier_next_kernel'' (locals kern) @
     [(''_Zocelot_resume_status'', 4, 4), (''_Zocelot_resume_point'', 4, 4)] @
     ordinary_slots (locals kern) @
     named_slot ''_Zocelot_spill_area'' (locals kern)"

definition slot_entries :: "Slot list \<Rightarrow> (nat \<times> nat) list" where
  "slot_entries slots = map (\<lambda>slot. (unat (fst (snd slot)), unat (snd (snd slot)))) slots"

definition local_example :: PTXKernel where
  "local_example =
     \<lparr>PTXKernel.arguments = [],
      locals =
        [(''_Zocelot_spill_area'', \<lparr>Local.name = ''_Zocelot_spill_area'', space = Local,
            Local.attribute = NoAttribute, Local.alignment = 16, Local.type = 0, Local.getSize = 64\<rparr>),
         (''buf'', \<lparr>Local.name = ''buf'', space = Local,
            Local.attribute = NoAttribute, Local.alignment = 8, Local.type = 0, Local.getSize = 24\<rparr>),
         (''tile'', \<lparr>Local.name = ''tile'', space = Shared,
            Local.attribute = NoAttribute, Local.alignment = 4, Local.type = 0, Local.getSize = 20\<rparr>),
         (''_Zocelot_barrier_next_kernel'', \<lparr>Local.name = ''_Zocelot_barrier_next_kernel'', space = Local,
            Local.attribute = NoAttribute, Local.alignment = 4, Local.type = 0, Local.getSize = 4\<rparr>)],
      cfg = [\<lparr>instructions = [instruction Ld noOperand (addressOperand ''buf'' 0)]\<rparr>],
      module = emptyModule\<rparr>"

text \<open>A subkernel with a local of \<open>2\<^sup>3\<^sup>2 - 8\<close> bytes and a spill area.\<close>

definition wrapping_local_example :: PTXKernel where
  "wrapping_local_example =
     \<lparr>PTXKernel.arguments = [],
      locals =
        [(''big'', \<lparr>Local.name = ''big'', space = Local,
            Local.attribute = NoAttribute, Local.alignment = 8, Local.type = 0,
            Local.getSize = 0xFFFFFFF8\<rparr>),
         (''_Zocelot_spill_area'', \<lparr>Local.name = ''_Zocelot_spill_area'', space = Local,
            Local.attribute = NoAttribute, Local.alignment = 16, Local.type = 0, Local.getSize = 64\<rparr>)],
      cfg = [],
      module = emptyModule\<rparr>"

subsection \<open>Calls the call-target pass refuses\<close>

definition unsupported_call :: "PTXInstruction \<Rightarrow> bool" where
  "unsupported_call ptx =
     ((opcode ptx = Call \<or> opcode ptx = Mov) \<and> \<not> tailCall ptx \<and>
      addressMode (ptx_a ptx) = FunctionName \<and>
      identifierName (ptx_a ptx) \<noteq> ''ptx.warp.divergent'')"

subsection \<open>Views of the cache, and example caches\<close>

text \<open>
  \<open>cached\<close> is an entry of the two-level translation cache; \<open>specialized\<close> is an entry of
  the specialization table of a translated subkernel; \<open>linked\<close> says that the registered
  subkernel has a module whose globals the backend can all link.
\<close>

definition cached :: "DynamicTranslationCache \<Rightarrow> SubkernelId \<Rightarrow> int \<Rightarrow> pointer option" where
  "cached s subkernelId' warpsize =
     (case translationCache s subkernelId' of None \<Rightarrow> None | Some row \<Rightarrow> row warpsize)"


definition good_backend :: Backend where
  "good_backend = \<lparr>raises = (\<lambda>step. False), cloneFunction = 30, verifyAfterOptimize = False,
     getNamedValue = (\<lambda>nm. 31), getGlobalAllocation = (\<lambda>nm. 32), getPointerToFunction = 33,
     verifyFinal = False\<rparr>"

definition example_cache :: "int \<Rightarrow> SubkernelId \<Rightarrow> DynamicTranslationCache" where
  "example_cache memberWarpSize memberSubkernelid =
     \<lparr>modules = [''m'' \<mapsto> \<lparr>ptxModule = 1, ModuleMetadata.device = 2, ModuleMetadata.kernels = Map.empty\<rparr>],
      DynamicTranslationCache.kernels = [3 \<mapsto> 10],
      subkernelsToKernel = [7 \<mapsto> 10],
      translationCache = Map.empty,
      DynamicTranslationCache.warpSize = memberWarpSize,
      subkernelid = memberSubkernelid,
      subkernelId = 0,
      DynamicTranslationCache.device = 2,
      translatedKernels = [10 \<mapsto>
        \<lparr>llvmModule = 11, kernelPtr = 3, TranslatedKernel.metadataPtr = Some metadata0,
         localMemorySize = 0, sharedMemorySize = 0,
         TranslatedKernel.subkernels = [7 \<mapsto>
           \<lparr>TranslatedSubkernel.llvmFunction = 12, TranslatedSubkernel.metadataPtr = Some metadata0,
            subkernelPtr = Some (int_double_kernel Ld), translationsMap = Map.empty\<rparr>]\<rparr>],
      translationObjects = Map.empty,
      kernelObjects = Map.empty,
      nextObject = 20,
      pipelineRuns = []\<rparr>"

definition empty_cache :: DynamicTranslationCache where
  "empty_cache =
     \<lparr>modules = Map.empty, DynamicTranslationCache.kernels = Map.empty,
      subkernelsToKernel = Map.empty, translationCache = Map.empty,
      DynamicTranslationCache.warpSize = 1, subkernelid = 0, subkernelId = 0,
      DynamicTranslationCache.device = 2, translatedKernels = Map.empty,
      translationObjects = Map.empty, kernelObjects = Map.empty, nextObject = 20,
      pipelineRuns = []\<rparr>"

definition good_frontend :: Frontend where
  "good_frontend = \<lparr>translateSubkernel = (\<lambda>subkernelId' kern. Translated (100 + subkernelId') metadata0)\<rparr>"

definition example_kernel :: DynamicMulticoreKernel where
  "example_kernel = \<lparr>address = 3, DynamicMulticoreKernel.name = ''k'', moduleName = ''m'',
     DynamicMulticoreKernel.subkernels = [(7, int_double_kernel Ld), (8, int_double_kernel St)]\<rparr>"


text \<open>
  The caches the member functions can build. The constructor has an empty body: the maps
  and the stores are empty, the members \<^verbatim>\<open>warpSize\<close>, \<^verbatim>\<open>subkernelid\<close>, \<^verbatim>\<open>subkernelId\<close> and
  \<^verbatim>\<open>device\<close> have any value, and so has the first free address. A cache is \<open>reachable\<close>
  when it is a newly constructed one, or the cache that \<open>loadModule\<close>, \<open>registerKernel\<close> or
  \<open>getOrInsertTranslation\<close> leaves, by returning or by throwing, when called on a
  reachable cache with any arguments and any environment. Since the file does not say
  who writes the four members, a reachable cache stays reachable when they change.
  \<open>registered\<close> says that \<open>subkernelsToKernel\<close> maps the subkernel to a translated kernel
  of the store; \<open>registered_cache\<close> is the cache after the module \<open>m\<close> is loaded and its
  kernel \<open>k\<close> registered.
\<close>

definition initial_cache ::
  "int \<Rightarrow> SubkernelId \<Rightarrow> SubkernelId \<Rightarrow> pointer \<Rightarrow> pointer \<Rightarrow> DynamicTranslationCache" where
  "initial_cache memberWarpSize memberSubkernelid memberSubkernelId memberDevice firstObject =
     \<lparr>modules = Map.empty, DynamicTranslationCache.kernels = Map.empty,
      subkernelsToKernel = Map.empty, translationCache = Map.empty,
      DynamicTranslationCache.warpSize = memberWarpSize, subkernelid = memberSubkernelid,
      subkernelId = memberSubkernelId, DynamicTranslationCache.device = memberDevice,
      translatedKernels = Map.empty, translationObjects = Map.empty, kernelObjects = Map.empty,
      nextObject = firstObject, pipelineRuns = []\<rparr>"

inductive reachable :: "DynamicTranslationCache \<Rightarrow> bool" where
  constructed:
    "reachable (initial_cache memberWarpSize memberSubkernelid memberSubkernelId memberDevice firstObject)"
| members:
    "reachable s \<Longrightarrow>
     reachable (s\<lparr>DynamicTranslationCache.warpSize := memberWarpSize, subkernelid := memberSubkernelid,
                   subkernelId := memberSubkernelId, DynamicTranslationCache.device := memberDevice\<rparr>)"
| loadModule_returns:
    "reachable s \<Longrightarrow> loadModule moduleName' module' device' s = Returns loaded s' \<Longrightarrow> reachable s'"
| registerKernel_returns:
    "reachable s \<Longrightarrow> registerKernel frontend kernel' s = Returns u s' \<Longrightarrow> reachable s'"
| registerKernel_throws:
    "reachable s \<Longrightarrow> registerKernel frontend kernel' s = Throws message s' \<Longrightarrow> reachable s'"
| getOrInsertTranslation_returns:
    "reachable s \<Longrightarrow>
     getOrInsertTranslation env warpsize subkernelId' specialization s = Returns translation s' \<Longrightarrow>
     reachable s'"
| getOrInsertTranslation_throws:
    "reachable s \<Longrightarrow>
     getOrInsertTranslation env warpsize subkernelId' specialization s = Throws message s' \<Longrightarrow>
     reachable s'"

definition untranslated :: "DynamicTranslationCache \<Rightarrow> bool" where
  "untranslated s \<longleftrightarrow>
     translationCache s = Map.empty \<and> translationObjects s = Map.empty \<and>
     (\<forall>translatedKernel tk subkernelId' subkernel.
        translatedKernels s translatedKernel = Some tk \<longrightarrow>
        TranslatedKernel.subkernels tk subkernelId' = Some subkernel \<longrightarrow>
        subkernelPtr subkernel = None \<and> translationsMap subkernel = Map.empty)"



section \<open>Properties\<close>

subsection \<open>Padding and sequential layout\<close>

lemma padding_spec_aligned:
  assumes "0 < a" shows "(s + padding_spec s a) mod a = 0"
proof (cases "s mod a = 0")
  case True
  then show ?thesis by (simp add: padding_spec_def)
next
  case False
  have r: "s mod a < a" using assms by simp
  have "s + (a - s mod a) = a * (s div a) + a"
    using r mult_div_mod_eq [of a s] by linarith
  then have "(s + (a - s mod a)) mod a = 0" by simp
  moreover have "padding_spec s a = a - s mod a"
    using False assms by (simp add: padding_spec_def)
  ultimately show ?thesis by simp
qed

lemma padding_spec_less: "0 < a \<Longrightarrow> padding_spec s a < a"
  unfolding padding_spec_def by auto

lemma pad_spec:
  assumes "algn \<noteq> 0" and "unat sz + padding_spec (unat sz) (unat algn) < 2 ^ 32"
  shows "pad sz algn = Inr (of_nat (padding_spec (unat sz) (unat algn)), of_nat (unat sz + padding_spec (unat sz) (unat algn)))"
proof -
  let ?r = "sz mod algn"
  have a0: "0 < unat algn" using assms(1) by (simp add: unat_gt_0)
  have ur: "unat ?r = unat sz mod unat algn" by (simp add: unat_mod)
  have rle: "?r \<le> algn" using a0 ur by (simp add: word_le_nat_alt less_imp_le)
  have usub: "unat (algn - ?r) = unat algn - unat sz mod unat algn"
    using rle by (simp add: unat_sub ur)
  have eq: "(algn = algn - ?r) = (unat algn - unat sz mod unat algn = unat algn)"
    using usub by (metis word_unat_eq_iff)
  have w: "algn - ?r = of_nat (unat (algn - ?r))" by simp
  have p: "(if algn = algn - ?r then 0 else algn - ?r) = of_nat (padding_spec (unat sz) (unat algn))"
  proof (cases "algn = algn - ?r")
    case True
    then show ?thesis using eq by (simp add: padding_spec_def)
  next
    case False
    then have "padding_spec (unat sz) (unat algn) = unat (algn - ?r)"
      using eq usub by (simp add: padding_spec_def)
    then show ?thesis using False w by simp
  qed
  show ?thesis
    using assms(1) p by (simp add: pad_def Let_def)
qed

lemma layout_size_ge: "s \<le> layout_size es s"
proof (induction es arbitrary: s)
  case Nil
  then show ?case by simp
next
  case (Cons e es)
  obtain a n where e: "e = (a, n)" by (cases e)
  have "s \<le> s + padding_spec s a + n" by simp
  also have "\<dots> \<le> layout_size es (s + padding_spec s a + n)" by (rule Cons.IH)
  finally show ?case by (simp add: e)
qed

lemma layout_size_sum: "layout_size es s = s + sum_list (padded_sizes es s)"
proof (induction es arbitrary: s)
  case Nil
  then show ?case by simp
next
  case (Cons e es)
  obtain a n where e: "e = (a, n)" by (cases e)
  show ?case by (simp add: e Cons.IH)
qed

lemma length_layout_offsets [simp]: "length (layout_offsets es s) = length es"
  by (induction es s rule: layout_offsets.induct) simp_all

lemma layout_offsets_aligned:
  "list_all (\<lambda>e. 0 < fst e) es \<Longrightarrow> i < length es \<Longrightarrow> layout_offsets es s ! i mod fst (es ! i) = 0"
proof (induction es s arbitrary: i rule: layout_offsets.induct)
  case (1 s)
  then show ?case by simp
next
  case (2 a n es s)
  then show ?case by (cases i) (simp_all add: padding_spec_aligned)
qed

lemma unat_of_nat32: "n < 2 ^ 32 \<Longrightarrow> unat (of_nat n :: uint) = n"
  by (simp add: unat_of_nat)

subsection \<open>Argument memory\<close>

lemma argumentOffsets_spec:
  assumes "list_all (\<lambda>p. getAlignment p \<noteq> 0) args"
      and "layout_size (argument_entries args) (unat off) < 2 ^ 32"
  shows "argumentOffsets args off offsets =
           Inr (of_nat (layout_size (argument_entries args) (unat off)),
                insert_all (zip (map Parameter.name args) (layout_offsets (argument_entries args) (unat off))) offsets)"
  using assms
proof (induction args arbitrary: off offsets)
  case Nil
  then show ?case by (simp add: argument_entries_def insert_all_def)
next
  case (Cons p ps)
  let ?a = "unat (getAlignment p)" and ?n = "unat (Parameter.getSize p)"
  let ?o = "unat off + padding_spec (unat off) ?a"
  have es: "argument_entries (p # ps) = (?a, ?n) # argument_entries ps"
    by (simp add: argument_entries_def)
  have fits: "layout_size (argument_entries ps) (?o + ?n) < 2 ^ 32"
    using Cons.prems(2) by (simp add: es)
  have le: "?o + ?n \<le> layout_size (argument_entries ps) (?o + ?n)" by (rule layout_size_ge)
  have o_fits: "?o + ?n < 2 ^ 32" using le fits by linarith
  then have o_fits': "?o < 2 ^ 32" by linarith
  have nz: "getAlignment p \<noteq> 0" using Cons.prems(1) by simp
  have p: "pad off (getAlignment p) = Inr (of_nat (padding_spec (unat off) ?a), of_nat ?o)"
    using pad_spec [OF nz o_fits'] .
  have un: "unat (of_nat ?o + Parameter.getSize p :: uint) = ?o + ?n"
    using o_fits unat_of_nat32 [OF o_fits'] by (simp add: unat_add_lem [THEN iffD1])
  have pre1: "list_all (\<lambda>p. getAlignment p \<noteq> 0) ps" using Cons.prems(1) by simp
  have pre2: "layout_size (argument_entries ps) (unat (of_nat ?o + Parameter.getSize p :: uint)) < 2 ^ 32"
    unfolding un by (rule fits)
  note IH = Cons.IH [OF pre1 pre2, unfolded un]
  have "argumentOffsets (p # ps) off offsets =
          argumentOffsets ps (of_nat ?o + Parameter.getSize p) (map_insert offsets (Parameter.name p) (of_nat ?o))"
    by (simp only: argumentOffsets.simps p sum.case prod.case)
  also note IH
  finally show ?case
    by (simp add: es insert_all_def)
qed

lemma map_insert_keep: "m k = Some v \<Longrightarrow> map_insert m k' v' k = Some v"
  by (auto simp: map_insert_def split: option.splits)

lemma insert_all_keep: "m k = Some v \<Longrightarrow> insert_all kvs m k = Some v"
  unfolding insert_all_def
  by (induction kvs arbitrary: m) (auto simp: map_insert_keep)

lemma insert_all_lookup:
  "distinct (map fst kvs) \<Longrightarrow> i < length kvs \<Longrightarrow> m (fst (kvs ! i)) = None \<Longrightarrow>
   insert_all kvs m (fst (kvs ! i)) = Some (of_nat (snd (kvs ! i)))"
proof (induction kvs arbitrary: m i)
  case Nil
  then show ?case by simp
next
  case (Cons kv kvs)
  obtain k v where kv: "kv = (k, v)" by (cases kv)
  have step: "insert_all ((k, v) # kvs) m = insert_all kvs (map_insert m k (of_nat v))"
    by (simp add: insert_all_def)
  show ?case
  proof (cases i)
    case 0
    then have "map_insert m k (of_nat v) k = Some (of_nat v)"
      using Cons.prems(3) by (simp add: map_insert_def kv)
    then show ?thesis using 0 by (simp add: step insert_all_keep kv)
  next
    case (Suc j)
    then have j: "j < length kvs" using Cons.prems(2) by simp
    then have "fst (kvs ! j) \<in> fst ` set kvs" by (metis nth_mem image_eqI)
    then have ne: "fst (kvs ! j) \<noteq> k" using Cons.prems(1) by (auto simp: kv)
    then have "map_insert m k (of_nat v) (fst (kvs ! j)) = None"
      using Cons.prems(3) Suc by (simp add: map_insert_def split: option.splits)
    then show ?thesis
      using Cons.IH [OF _ j] Cons.prems(1) Suc by (simp add: step kv)
  qed
qed

lemma cfg_rel_map_instructions:
  "(\<And>ptx. R ptx (f ptx)) \<Longrightarrow> cfg_rel R g (map_instructions f g)"
  unfolding cfg_rel_def map_instructions_def
  by (simp add: list_all2_map2 list_all2_same)

lemma insert_all_other: "k \<notin> fst ` set kvs \<Longrightarrow> insert_all kvs m k = m k"
  unfolding insert_all_def
  by (induction kvs arbitrary: m) (auto simp: map_insert_def split: option.splits)

text \<open>
  Claim C4, as amended. For a kernel whose arguments have non-zero alignments and distinct
  names and whose argument region fits in 32 bits, the argument pass succeeds;
  \<open>argumentSize\<close> is the sum of the padded sizes (padding plus size of each argument, in
  declaration order); every declared offset is a multiple of the argument's alignment; and
  the instructions of the result are those of the kernel, position by position, where
  \<^item> in a \<open>Mov\<close>, \<open>Ld\<close> or \<open>St\<close> instruction, every Address-mode operand whose identifier
    names a declared argument gets the offset "original offset + declared offset" and is
    flagged as an argument, every other operand is unchanged, and so are the opcode, the
    address space and the tail-call flag;
  \<^item> every other instruction is unchanged.
\<close>

theorem argument_layout:
  assumes nz: "list_all (\<lambda>p. getAlignment p \<noteq> 0) (PTXKernel.arguments kern)"
      and dist: "distinct (map Parameter.name (PTXKernel.arguments kern))"
      and fits: "layout_size (argument_entries (PTXKernel.arguments kern)) 0 < 2 ^ 32"
  shows "\<exists>kern' metadata'.
      setupArgumentMemoryReferences kern metadata = Inr (kern', metadata') \<and>
      unat (argumentSize metadata') = sum_list (padded_sizes (argument_entries (PTXKernel.arguments kern)) 0) \<and>
      (\<forall>i < length (PTXKernel.arguments kern).
         layout_offsets (argument_entries (PTXKernel.arguments kern)) 0 ! i
           mod unat (getAlignment (PTXKernel.arguments kern ! i)) = 0) \<and>
      cfg_rel (\<lambda>ptx ptx'.
           if opcode ptx = Mov \<or> opcode ptx = Ld \<or> opcode ptx = St
           then opcode ptx' = opcode ptx \<and> addressSpace ptx' = addressSpace ptx \<and>
                tailCall ptx' = tailCall ptx \<and>
                list_all2 (\<lambda>operand operand'.
                   (\<forall>i < length (PTXKernel.arguments kern).
                      addressMode operand = Address \<and>
                      identifierName operand = Parameter.name (PTXKernel.arguments kern ! i) \<longrightarrow>
                        operand' = operand
                          \<lparr>offset := offset operand +
                             of_nat (layout_offsets (argument_entries (PTXKernel.arguments kern)) 0 ! i),
                           isArgument := True\<rparr>) \<and>
                   (\<not> (addressMode operand = Address \<and>
                       identifierName operand \<in> set (map Parameter.name (PTXKernel.arguments kern))) \<longrightarrow>
                        operand' = operand))
                  (operands ptx) (operands ptx')
           else ptx' = ptx)
        (cfg kern) (cfg kern')"
proof -
  let ?args = "PTXKernel.arguments kern"
  let ?es = "argument_entries ?args"
  let ?offs = "layout_offsets ?es 0"
  let ?kvs = "zip (map Parameter.name ?args) ?offs"
  let ?table = "insert_all ?kvs Map.empty"
  let ?Rop = "\<lambda>operand operand'.
             (\<forall>i < length ?args.
                addressMode operand = Address \<and>
                identifierName operand = Parameter.name (?args ! i) \<longrightarrow>
                  operand' = operand\<lparr>offset := offset operand + of_nat (?offs ! i), isArgument := True\<rparr>) \<and>
             (\<not> (addressMode operand = Address \<and>
                 identifierName operand \<in> set (map Parameter.name ?args)) \<longrightarrow> operand' = operand)"
  let ?R = "\<lambda>ptx ptx'.
           if opcode ptx = Mov \<or> opcode ptx = Ld \<or> opcode ptx = St
           then opcode ptx' = opcode ptx \<and> addressSpace ptx' = addressSpace ptx \<and>
                tailCall ptx' = tailCall ptx \<and> list_all2 ?Rop (operands ptx) (operands ptx')
           else ptx' = ptx"
  have len: "length ?es = length ?args" by (simp add: argument_entries_def)
  have run: "argumentOffsets ?args 0 Map.empty = Inr (of_nat (layout_size ?es 0), ?table)"
    using argumentOffsets_spec [OF nz, of 0 Map.empty] fits by simp
  have lookup: "?table (Parameter.name (?args ! i)) = Some (of_nat (?offs ! i))" if "i < length ?args" for i
  proof -
    have "distinct (map fst ?kvs)" using dist len by (simp add: map_fst_zip)
    moreover have "i < length ?kvs" using that len by simp
    moreover have "Map.empty (fst (?kvs ! i)) = None" by simp
    ultimately have "?table (fst (?kvs ! i)) = Some (of_nat (snd (?kvs ! i)))"
      by (rule insert_all_lookup)
    then show ?thesis using that len by simp
  qed
  have other: "?table k = None" if "k \<notin> set (map Parameter.name ?args)" for k
  proof -
    have "fst ` set ?kvs = set (map Parameter.name ?args)"
      using len by (metis length_layout_offsets length_map map_fst_zip set_map)
    then show ?thesis using that insert_all_other [of k ?kvs Map.empty] by simp
  qed
  have op: "?Rop operand (rewriteArgumentOperand ?table operand)" for operand
    using lookup other by (auto simp: rewriteArgumentOperand_def)
  have instr: "?R ptx (rewriteArgumentInstruction ?table ptx)" for ptx
  proof (cases "opcode ptx = Mov \<or> opcode ptx = Ld \<or> opcode ptx = St")
    case True
    have "list_all2 ?Rop (operands ptx) (operands (map_operands (rewriteArgumentOperand ?table) ptx))"
      using op by (simp add: map_operands_def operands_def)
    then show ?thesis
      using True by (simp add: rewriteArgumentInstruction_def map_operands_def)
  next
    case False
    then show ?thesis
      by (simp add: rewriteArgumentInstruction_def)
  qed
  have rel: "cfg_rel ?R (cfg kern) (map_instructions (rewriteArgumentInstruction ?table) (cfg kern))"
    by (rule cfg_rel_map_instructions) (rule instr)
  have size: "unat (of_nat (layout_size ?es 0) :: uint) = sum_list (padded_sizes ?es 0)"
    using fits by (simp add: unat_of_nat32 layout_size_sum)
  have aligned: "?offs ! i mod unat (getAlignment (?args ! i)) = 0" if "i < length ?args" for i
  proof -
    have "list_all (\<lambda>e. 0 < fst e) ?es"
      using nz by (simp add: argument_entries_def list_all_iff unat_gt_0)
    then have "?offs ! i mod fst (?es ! i) = 0"
      using that len by (simp add: layout_offsets_aligned)
    then show ?thesis using that by (simp add: argument_entries_def)
  qed
  show ?thesis
    using rel size aligned by (simp add: setupArgumentMemoryReferences_def run)
qed

text \<open>
  The theorem at the kernel of the specification's example: an \<open>int\<close> argument (size and
  alignment 4) followed by a \<open>double\<close> argument (size and alignment 8), read by one
  \<open>Ld\<close>. The offsets are 0 and 8, \<open>argumentSize\<close> is 16, and the operand naming the
  second argument is moved to offset 8 and flagged.
\<close>

theorem argument_layout_int_double:
  "layout_offsets (argument_entries int_double_arguments) 0 = [0, 8] \<and>
   setupArgumentMemoryReferences (int_double_kernel Ld) metadata0 =
     Inr ((int_double_kernel Ld)
            \<lparr>cfg := [\<lparr>instructions =
               [instruction Ld noOperand ((addressOperand ''x'' 8)\<lparr>isArgument := True\<rparr>)]\<rparr>]\<rparr>,
          metadata0\<lparr>argumentSize := 16\<rparr>)"
proof -
  have nz: "list_all (\<lambda>p. getAlignment p \<noteq> 0) (PTXKernel.arguments (int_double_kernel Ld))"
    by (simp add: int_double_kernel_def int_double_arguments_def)
  have dist: "distinct (map Parameter.name (PTXKernel.arguments (int_double_kernel Ld)))"
    by (simp add: int_double_kernel_def int_double_arguments_def)
  have fits: "layout_size (argument_entries (PTXKernel.arguments (int_double_kernel Ld))) 0 < 2 ^ 32"
    by (simp add: int_double_kernel_def argument_entries_def int_double_arguments_def padding_spec_def)
  have offs: "layout_offsets (argument_entries int_double_arguments) 0 = [0, 8]"
    by (simp add: argument_entries_def int_double_arguments_def padding_spec_def)
  have run: "argumentOffsets int_double_arguments 0 Map.empty =
      Inr (16, [''i'' \<mapsto> 0, ''x'' \<mapsto> 8])"
    by (simp add: int_double_arguments_def pad_def map_insert_def)
  from argument_layout [OF nz dist fits, of metadata0]
  obtain kern' metadata' where
    r: "setupArgumentMemoryReferences (int_double_kernel Ld) metadata0 = Inr (kern', metadata')"
    by blast
  have "setupArgumentMemoryReferences (int_double_kernel Ld) metadata0 =
     Inr ((int_double_kernel Ld)
            \<lparr>cfg := [\<lparr>instructions =
               [instruction Ld noOperand ((addressOperand ''x'' 8)\<lparr>isArgument := True\<rparr>)]\<rparr>]\<rparr>,
          metadata0\<lparr>argumentSize := 16\<rparr>)"
    using r
    by (simp add: setupArgumentMemoryReferences_def int_double_kernel_def run map_instructions_def
        rewriteArgumentInstruction_def map_operands_def rewriteArgumentOperand_def instruction_def
        addressOperand_def noOperand_def)
  then show ?thesis using offs by simp
qed

text \<open>
  Claim C4 as stated fails: the same kernel with a \<open>Cvta\<close> instruction in place of the
  \<open>Ld\<close>. Its operand is in Address mode and names the argument \<open>x\<close>, declared at offset
  8; the pass leaves its offset at 0 and does not flag it.
\<close>

theorem argument_rewrite_counterexample:
  "map (\<lambda>ptx. (opcode ptx, addressMode (ptx_a ptx), identifierName (ptx_a ptx), offset (ptx_a ptx)))
       (all_instructions (cfg (int_double_kernel Cvta))) = [(Cvta, Address, ''x'', 0)] \<and>
   (case argumentOffsets (PTXKernel.arguments (int_double_kernel Cvta)) 0 Map.empty of
      Inl e \<Rightarrow> None | Inr (off, offsets) \<Rightarrow> offsets ''x'') = Some 8 \<and>
   (case setupArgumentMemoryReferences (int_double_kernel Cvta) metadata0 of
      Inl e \<Rightarrow> []
    | Inr (kern', metadata') \<Rightarrow>
        map (\<lambda>ptx. (offset (ptx_a ptx), isArgument (ptx_a ptx))) (all_instructions (cfg kern'))) = [(0, False)]"
  by (simp add: int_double_kernel_def int_double_arguments_def all_instructions_def instruction_def
      addressOperand_def noOperand_def pad_def map_insert_def setupArgumentMemoryReferences_def
      map_instructions_def rewriteArgumentInstruction_def)

subsection \<open>Parameter memory: the size of the region\<close>


lemma pad_Inl: "pad s a = Inl e \<Longrightarrow> e = DivisionByZero \<and> a = 0"
  by (auto simp: pad_def Let_def split: if_splits)

lemma pad_nonzero: "a \<noteq> 0 \<Longrightarrow> pad s a = Inr (word_padding s a, s + word_padding s a)"
  by (auto simp: pad_def word_padding_def Let_def)









subsection \<open>Parameter memory: distinct argument identifiers\<close>

lemma dom_map_insert: "dom (map_insert m k v) = insert k (dom m)"
  by (auto simp: map_insert_def split: option.splits)

lemma callArguments_Inr:
  "callArguments bytesOf args off offsets = Inr (off', offsets') \<Longrightarrow>
   distinct (map identifierName args) \<and> set (map identifierName args) \<inter> dom offsets = {} \<and>
   dom offsets' = dom offsets \<union> set (map identifierName args)"
proof (induction args arbitrary: off offsets)
  case Nil
  then show ?case by simp
next
  case (Cons a args)
  from Cons.prems obtain p s' where p: "pad off (bytesOf (PTXOperandBase.type a)) = Inr (p, s')"
    by (auto split: sum.splits)
  from Cons.prems p have fresh: "offsets (identifierName a) = None"
    by (simp split: if_splits)
  from Cons.prems p fresh have
    "callArguments bytesOf args (s' + bytesOf (PTXOperandBase.type a))
       (map_insert offsets (identifierName a) s') = Inr (off', offsets')"
    by simp
  from Cons.IH [OF this] show ?case
    using fresh by (auto simp: dom_map_insert)
qed

lemma callArguments_assertion:
  "callArguments bytesOf args off offsets = Inl (AssertionFailure msg) \<Longrightarrow>
   \<not> (distinct (map identifierName args) \<and> set (map identifierName args) \<inter> dom offsets = {})"
proof (induction args arbitrary: off offsets)
  case Nil
  then show ?case by simp
next
  case (Cons a args)
  from Cons.prems obtain p s' where p: "pad off (bytesOf (PTXOperandBase.type a)) = Inr (p, s')"
    by (auto split: sum.splits dest: pad_Inl)
  show ?case
  proof (cases "offsets (identifierName a)")
    case (Some v)
    then show ?thesis by auto
  next
    case None
    with Cons.prems p have
      "callArguments bytesOf args (s' + bytesOf (PTXOperandBase.type a))
         (map_insert offsets (identifierName a) s') = Inl (AssertionFailure msg)"
      by simp
    from Cons.IH [OF this] show ?thesis
      by (auto simp: dom_map_insert)
  qed
qed

lemma callArguments_no_trap:
  "list_all (\<lambda>argument. bytesOf (PTXOperandBase.type argument) \<noteq> 0) args \<Longrightarrow>
   callArguments bytesOf args off offsets \<noteq> Inl DivisionByZero"
proof (induction args arbitrary: off offsets)
  case Nil
  then show ?case by simp
next
  case (Cons a args)
  then show ?case
    by (simp add: pad_nonzero)
qed

lemma callSites_Inr:
  "callSites bytesOf instrs ps offsets = Inr (ps', offsets') \<Longrightarrow>
   distinct (call_argument_identifiers instrs) \<and>
   set (call_argument_identifiers instrs) \<inter> dom offsets = {} \<and>
   dom offsets' = dom offsets \<union> set (call_argument_identifiers instrs)"
proof (induction instrs arbitrary: ps offsets)
  case Nil
  then show ?case by (simp add: call_argument_identifiers_def)
next
  case (Cons ptx instrs)
  show ?case
  proof (cases "is_call_site ptx")
    case False
    then have "callSites bytesOf (ptx # instrs) ps offsets = callSites bytesOf instrs ps offsets"
      by (auto simp: is_call_site_def)
    with Cons.prems have "callSites bytesOf instrs ps offsets = Inr (ps', offsets')" by simp
    from Cons.IH [OF this] show ?thesis using False by (simp add: call_argument_identifiers_def)
  next
    case True
    then have c: "opcode ptx = Call" "identifierName (ptx_a ptx) \<noteq> ''ptx.warp.divergent''"
      by (simp_all add: is_call_site_def)
    from Cons.prems c obtain off1 offs1 where
      d: "callArguments bytesOf (array (ptx_d ptx)) 0 offsets = Inr (off1, offs1)"
      by (auto split: sum.splits)
    from Cons.prems c d obtain off2 offs2 where
      b: "callArguments bytesOf (array (ptx_b ptx)) off1 offs1 = Inr (off2, offs2)"
      by (auto split: sum.splits)
    from Cons.prems c d b have r: "callSites bytesOf instrs (max off2 ps) offs2 = Inr (ps', offsets')"
      by simp
    have ids: "call_argument_identifiers (ptx # instrs) =
        map identifierName (array (ptx_d ptx)) @ map identifierName (array (ptx_b ptx)) @
        call_argument_identifiers instrs"
      using True by (simp add: call_argument_identifiers_def call_arguments_def)
    from callArguments_Inr [OF d] callArguments_Inr [OF b] Cons.IH [OF r]
    show ?thesis unfolding ids by auto
  qed
qed

lemma callSites_assertion:
  "callSites bytesOf instrs ps offsets = Inl (AssertionFailure msg) \<Longrightarrow>
   \<not> (distinct (call_argument_identifiers instrs) \<and>
      set (call_argument_identifiers instrs) \<inter> dom offsets = {})"
proof (induction instrs arbitrary: ps offsets)
  case Nil
  then show ?case by simp
next
  case (Cons ptx instrs)
  show ?case
  proof (cases "is_call_site ptx")
    case False
    then have "callSites bytesOf (ptx # instrs) ps offsets = callSites bytesOf instrs ps offsets"
      by (auto simp: is_call_site_def)
    with Cons.prems have "callSites bytesOf instrs ps offsets = Inl (AssertionFailure msg)" by simp
    from Cons.IH [OF this] show ?thesis using False by (simp add: call_argument_identifiers_def)
  next
    case True
    then have c: "opcode ptx = Call" "identifierName (ptx_a ptx) \<noteq> ''ptx.warp.divergent''"
      by (simp_all add: is_call_site_def)
    have ids: "call_argument_identifiers (ptx # instrs) =
        map identifierName (array (ptx_d ptx)) @ map identifierName (array (ptx_b ptx)) @
        call_argument_identifiers instrs"
      using True by (simp add: call_argument_identifiers_def call_arguments_def)
    show ?thesis
    proof (cases "callArguments bytesOf (array (ptx_d ptx)) 0 offsets")
      case (Inl e)
      with Cons.prems c have "callArguments bytesOf (array (ptx_d ptx)) 0 offsets = Inl (AssertionFailure msg)"
        by simp
      from callArguments_assertion [OF this] show ?thesis unfolding ids by auto
    next
      case (Inr r1)
      obtain off1 offs1 where r1: "r1 = (off1, offs1)" by (cases r1)
      note d = Inr [unfolded r1]
      show ?thesis
      proof (cases "callArguments bytesOf (array (ptx_b ptx)) off1 offs1")
        case (Inl e)
        with Cons.prems c d have "callArguments bytesOf (array (ptx_b ptx)) off1 offs1 = Inl (AssertionFailure msg)"
          by simp
        from callArguments_assertion [OF this] callArguments_Inr [OF d]
        show ?thesis unfolding ids by auto
      next
        case (Inr r2)
        obtain off2 offs2 where r2: "r2 = (off2, offs2)" by (cases r2)
        note b = Inr [unfolded r2]
        from Cons.prems c d b have "callSites bytesOf instrs (max off2 ps) offs2 = Inl (AssertionFailure msg)"
          by simp
        from Cons.IH [OF this] callArguments_Inr [OF d] callArguments_Inr [OF b]
        show ?thesis unfolding ids by auto
      qed
    qed
  qed
qed

lemma callSites_no_trap:
  "list_all (\<lambda>w. w \<noteq> 0) (call_argument_widths bytesOf instrs) \<Longrightarrow>
   callSites bytesOf instrs ps offsets \<noteq> Inl DivisionByZero"
proof (induction instrs arbitrary: ps offsets)
  case Nil
  then show ?case by simp
next
  case (Cons ptx instrs)
  show ?case
  proof (cases "is_call_site ptx")
    case False
    then have "callSites bytesOf (ptx # instrs) ps offsets = callSites bytesOf instrs ps offsets"
      by (auto simp: is_call_site_def)
    then show ?thesis using Cons False by (simp add: call_argument_widths_def)
  next
    case True
    then have c: "opcode ptx = Call" "identifierName (ptx_a ptx) \<noteq> ''ptx.warp.divergent''"
      by (simp_all add: is_call_site_def)
    from Cons.prems True have
      nd: "list_all (\<lambda>argument. bytesOf (PTXOperandBase.type argument) \<noteq> 0) (array (ptx_d ptx))" and
      nb: "list_all (\<lambda>argument. bytesOf (PTXOperandBase.type argument) \<noteq> 0) (array (ptx_b ptx))" and
      nr: "list_all (\<lambda>w. w \<noteq> 0) (call_argument_widths bytesOf instrs)"
      by (simp_all add: call_argument_widths_def call_arguments_def list_all_iff)
    show ?thesis
      using callArguments_no_trap [OF nd] callArguments_no_trap [OF nb] Cons.IH [OF nr] c
      by (auto split: sum.splits)
  qed
qed

lemma declaredParameterBytes_no_assertion:
  "declaredParameterBytes ps b \<noteq> Inl (AssertionFailure msg)"
  by (induction ps arbitrary: b) (auto split: sum.splits dest: pad_Inl)

lemma moduleFunctions_no_assertion:
  "moduleFunctions ks ps \<noteq> Inl (AssertionFailure msg)"
  by (induction ks arbitrary: ps) (auto split: sum.splits simp: declaredParameterBytes_no_assertion)

text \<open>
  Claim C10. The identifiers of the argument operands of all non-intrinsic call
  instructions, in program order, must be distinct. When they are, the pass never fails
  an assertion. When one identifier occurs twice (in one call site or in two) and no
  argument type has width 0 (a zero width stops the pass in \<open>pad\<close> before the assertion is
  reached), the pass ends in the failed assertion.
\<close>

theorem parameter_identifiers_distinct:
  "(distinct (call_argument_identifiers (all_instructions (cfg kern))) \<longrightarrow>
      (\<forall>msg. setupParameterMemoryReferences bytesOf kern metadata \<noteq> Inl (AssertionFailure msg))) \<and>
   (\<not> distinct (call_argument_identifiers (all_instructions (cfg kern))) \<and>
    list_all (\<lambda>w. w \<noteq> 0) (call_argument_widths bytesOf (all_instructions (cfg kern))) \<longrightarrow>
      (\<exists>msg. setupParameterMemoryReferences bytesOf kern metadata = Inl (AssertionFailure msg)))"
proof (intro conjI impI allI)
  fix msg
  assume d: "distinct (call_argument_identifiers (all_instructions (cfg kern)))"
  show "setupParameterMemoryReferences bytesOf kern metadata \<noteq> Inl (AssertionFailure msg)"
  proof
    assume f: "setupParameterMemoryReferences bytesOf kern metadata = Inl (AssertionFailure msg)"
    show False
    proof (cases "callSites bytesOf (all_instructions (cfg kern)) 0 Map.empty")
      case (Inl e)
      with f have "callSites bytesOf (all_instructions (cfg kern)) 0 Map.empty = Inl (AssertionFailure msg)"
        by (simp add: setupParameterMemoryReferences_def)
      from callSites_assertion [OF this] d show False by simp
    next
      case (Inr r)
      obtain ps offsets where "r = (ps, offsets)" by (cases r)
      with f Inr have "moduleFunctions (Module.kernels (module kern)) ps = Inl (AssertionFailure msg)"
        by (simp add: setupParameterMemoryReferences_def split: sum.splits)
      then show False by (simp add: moduleFunctions_no_assertion)
    qed
  qed
next
  assume a: "\<not> distinct (call_argument_identifiers (all_instructions (cfg kern))) \<and>
    list_all (\<lambda>w. w \<noteq> 0) (call_argument_widths bytesOf (all_instructions (cfg kern)))"
  show "\<exists>msg. setupParameterMemoryReferences bytesOf kern metadata = Inl (AssertionFailure msg)"
  proof (cases "callSites bytesOf (all_instructions (cfg kern)) 0 Map.empty")
    case (Inl e)
    have "e \<noteq> DivisionByZero" using callSites_no_trap a Inl by metis
    then obtain msg where "e = AssertionFailure msg" by (cases e) auto
    with Inl show ?thesis by (simp add: setupParameterMemoryReferences_def)
  next
    case (Inr r)
    obtain ps offsets where "r = (ps, offsets)" by (cases r)
    with Inr callSites_Inr a show ?thesis by blast
  qed
qed

text \<open>
  Both halves at concrete kernels: the call \<open>f(a, b)\<close> is laid out, the call \<open>f(a, a)\<close>
  fails the assertion.
\<close>

theorem parameter_identifiers_distinct_witness:
  "distinct (call_argument_identifiers (all_instructions (cfg (call_kernel [''a'', ''b''])))) \<and>
   setupParameterMemoryReferences bytes4 (call_kernel [''a'', ''b'']) metadata0 \<noteq>
     Inl (AssertionFailure ''offsets.count(argument->identifier) == 0'') \<and>
   \<not> distinct (call_argument_identifiers (all_instructions (cfg (call_kernel [''a'', ''a''])))) \<and>
   list_all (\<lambda>w. w \<noteq> 0) (call_argument_widths bytes4 (all_instructions (cfg (call_kernel [''a'', ''a''])))) \<and>
   setupParameterMemoryReferences bytes4 (call_kernel [''a'', ''a'']) metadata0 =
     Inl (AssertionFailure ''offsets.count(argument->identifier) == 0'')"
proof -
  have ids: "call_argument_identifiers (all_instructions (cfg (call_kernel ins))) = ''ret'' # ins" for ins
    by (simp add: call_argument_identifiers_def call_kernel_def all_instructions_def is_call_site_def
        callInstruction_def instruction_def call_arguments_def argumentListOperand_def
        functionOperand_def noOperand_def comp_def)
  have widths: "list_all (\<lambda>w. w \<noteq> 0) (call_argument_widths bytes4 (all_instructions (cfg (call_kernel [''a'', ''a'']))))"
    by (simp add: call_argument_widths_def bytes4_def list_all_iff)
  have d: "distinct (call_argument_identifiers (all_instructions (cfg (call_kernel [''a'', ''b'']))))"
    by (simp add: ids)
  have nd: "\<not> distinct (call_argument_identifiers (all_instructions (cfg (call_kernel [''a'', ''a'']))))"
    by (simp add: ids)
  note t = parameter_identifiers_distinct
  from t [of "call_kernel [''a'', ''b'']" bytes4 metadata0] d
  have ok: "setupParameterMemoryReferences bytes4 (call_kernel [''a'', ''b'']) metadata0 \<noteq>
     Inl (AssertionFailure ''offsets.count(argument->identifier) == 0'')"
    by blast
  from t [of "call_kernel [''a'', ''a'']" bytes4 metadata0] nd widths
  obtain msg where "setupParameterMemoryReferences bytes4 (call_kernel [''a'', ''a'']) metadata0 =
     Inl (AssertionFailure msg)"
    by blast
  moreover have "\<exists>e. callSites bytes4 (all_instructions (cfg (call_kernel [''a'', ''a'']))) 0 Map.empty =
     Inl (AssertionFailure ''offsets.count(argument->identifier) == 0'')"
    by (simp add: call_kernel_def all_instructions_def callInstruction_def instruction_def
        argumentListOperand_def functionOperand_def noOperand_def bytes4_def pad_def map_insert_def)
  ultimately have bad: "setupParameterMemoryReferences bytes4 (call_kernel [''a'', ''a'']) metadata0 =
     Inl (AssertionFailure ''offsets.count(argument->identifier) == 0'')"
    by (simp add: setupParameterMemoryReferences_def)
  show ?thesis using d ok nd widths bad by simp
qed

subsection \<open>Parameter memory: running the pass again\<close>

lemma all_instructions_map_instructions:
  "all_instructions (map_instructions f g) = map f (all_instructions g)"
  by (induction g) (simp_all add: all_instructions_def map_instructions_def)

lemma rewriteParameterInstruction_call_fields:
  "opcode (rewriteParameterInstruction t ptx) = opcode ptx"
  "identifierName (ptx_a (rewriteParameterInstruction t ptx)) = identifierName (ptx_a ptx)"
  "array (ptx_d (rewriteParameterInstruction t ptx)) = array (ptx_d ptx)"
  "array (ptx_b (rewriteParameterInstruction t ptx)) = array (ptx_b ptx)"
  by (simp_all add: rewriteParameterInstruction_def map_operands_def rewriteParameterOperand_def
      split: option.splits)

lemma callSites_rewritten:
  "callSites bytesOf (map (rewriteParameterInstruction t) instrs) ps offsets =
   callSites bytesOf instrs ps offsets"
proof (induction instrs arbitrary: ps offsets)
  case Nil
  then show ?case by simp
next
  case (Cons ptx instrs)
  show ?case
    by (simp add: rewriteParameterInstruction_call_fields Cons.IH split: sum.splits)
qed

text \<open>
  Claim C9, as amended. When the parameter pass has returned (with kernel \<open>kern1\<close> and
  metadata \<open>metadata1\<close>), running it again on its own output returns too, with the same
  metadata, hence the same \<open>parameterSize\<close>, and from the same offset table; but it adds
  the parameter's offset to every matching Address operand of a \<open>Mov\<close>, \<open>Ld\<close> or \<open>St\<close>
  once more, so an operand keeps its offset only when its parameter is at offset 0.
\<close>

theorem parameter_layout_rerun:
  assumes "setupParameterMemoryReferences bytesOf kern metadata = Inr (kern1, metadata1)"
  shows "\<exists>kern2.
      setupParameterMemoryReferences bytesOf kern1 metadata1 = Inr (kern2, metadata1) \<and>
      cfg_rel (\<lambda>ptx1 ptx2. list_all2 (\<lambda>operand1 operand2.
           \<forall>parameter.
             (opcode ptx1 = Mov \<or> opcode ptx1 = Ld \<or> opcode ptx1 = St) \<and>
             addressMode operand1 = Address \<and>
             parameterOffsets bytesOf kern (identifierName operand1) = Some parameter \<longrightarrow>
               offset operand2 = offset operand1 + parameter)
           (operands ptx1) (operands ptx2))
        (cfg kern1) (cfg kern2)"
proof -
  from assms obtain ps offsets where
    c: "callSites bytesOf (all_instructions (cfg kern)) 0 Map.empty = Inr (ps, offsets)"
    by (auto simp: setupParameterMemoryReferences_def split: sum.splits)
  from assms c obtain ps' where
    m: "moduleFunctions (Module.kernels (module kern)) ps = Inr ps'" and
    k1: "kern1 = kern\<lparr>cfg := map_instructions (rewriteParameterInstruction offsets) (cfg kern)\<rparr>" and
    m1: "metadata1 = metadata\<lparr>parameterSize := ps'\<rparr>"
    by (auto simp: setupParameterMemoryReferences_def split: sum.splits)
  have t: "parameterOffsets bytesOf kern = offsets" by (simp add: parameterOffsets_def c)
  have c1: "callSites bytesOf (all_instructions (cfg kern1)) 0 Map.empty = Inr (ps, offsets)"
    by (simp add: k1 all_instructions_map_instructions callSites_rewritten c)
  have m1': "moduleFunctions (Module.kernels (module kern1)) ps = Inr ps'"
    using m by (simp add: k1)
  let ?kern2 = "kern1\<lparr>cfg := map_instructions (rewriteParameterInstruction offsets) (cfg kern1)\<rparr>"
  have run: "setupParameterMemoryReferences bytesOf kern1 metadata1 = Inr (?kern2, metadata1)"
    by (simp add: setupParameterMemoryReferences_def c1 m1' m1)
  have rel: "cfg_rel (\<lambda>ptx1 ptx2. list_all2 (\<lambda>operand1 operand2.
           \<forall>parameter.
             (opcode ptx1 = Mov \<or> opcode ptx1 = Ld \<or> opcode ptx1 = St) \<and>
             addressMode operand1 = Address \<and>
             offsets (identifierName operand1) = Some parameter \<longrightarrow>
               offset operand2 = offset operand1 + parameter)
           (operands ptx1) (operands ptx2))
        (cfg kern1) (map_instructions (rewriteParameterInstruction offsets) (cfg kern1))"
    by (rule cfg_rel_map_instructions)
      (auto simp: rewriteParameterInstruction_def map_operands_def operands_def
        rewriteParameterOperand_def)
  show ?thesis
    using run rel unfolding t by (intro exI [of _ ?kern2]) simp
qed

text \<open>
  Claim C9 as stated fails: for the call \<open>f(a, b)\<close> with return parameter \<open>ret\<close>, the
  parameter \<open>b\<close> is at offset 8. The operand \<open>[b]\<close> of the \<open>St\<close> has offset 8 after the
  first run and 16 after the second; \<open>parameterSize\<close> is 16 both times.
\<close>

theorem parameter_layout_not_idempotent:
  "(case setupParameterMemoryReferences bytes4 (call_kernel [''a'', ''b'']) metadata0 of
      Inl e \<Rightarrow> None
    | Inr (kern1, metadata1) \<Rightarrow>
        (case setupParameterMemoryReferences bytes4 kern1 metadata1 of
           Inl e \<Rightarrow> None
         | Inr (kern2, metadata2) \<Rightarrow>
             Some (map (\<lambda>ptx. offset (ptx_d ptx)) (all_instructions (cfg kern1)),
                   map (\<lambda>ptx. offset (ptx_d ptx)) (all_instructions (cfg kern2)),
                   parameterSize metadata1, parameterSize metadata2))) =
   Some ([0, 0, 8], [0, 0, 16], 16, 16)"
proof -
  have cs: "callSites bytes4 (all_instructions (cfg (call_kernel [''a'', ''b'']))) 0 Map.empty =
      Inr (12, [''ret'' \<mapsto> 0, ''a'' \<mapsto> 4, ''b'' \<mapsto> 8])"
    by (simp add: call_kernel_def all_instructions_def callInstruction_def instruction_def
        argumentListOperand_def functionOperand_def noOperand_def bytes4_def pad_def map_insert_def)
  have mf: "moduleFunctions (Module.kernels (module (call_kernel [''a'', ''b'']))) 12 = Inr 16"
    by (simp add: call_kernel_def two_function_module_def pad_def)
  let ?t = "[''ret'' \<mapsto> 0, ''a'' \<mapsto> 4, ''b'' \<mapsto> (8::uint)]"
  let ?k1 = "(call_kernel [''a'', ''b''])\<lparr>cfg := map_instructions (rewriteParameterInstruction ?t)
      (cfg (call_kernel [''a'', ''b'']))\<rparr>"
  have run1: "setupParameterMemoryReferences bytes4 (call_kernel [''a'', ''b'']) metadata0 =
      Inr (?k1, metadata0\<lparr>parameterSize := 16\<rparr>)"
    by (simp add: setupParameterMemoryReferences_def cs mf)
  have cs1: "callSites bytes4 (all_instructions (cfg ?k1)) 0 Map.empty = Inr (12, ?t)"
    by (simp add: all_instructions_map_instructions callSites_rewritten cs)
  have mf1: "moduleFunctions (Module.kernels (module ?k1)) 12 = Inr 16"
    using mf by simp
  have run2: "setupParameterMemoryReferences bytes4 ?k1 (metadata0\<lparr>parameterSize := 16\<rparr>) =
      Inr (?k1\<lparr>cfg := map_instructions (rewriteParameterInstruction ?t) (cfg ?k1)\<rparr>,
           metadata0\<lparr>parameterSize := 16\<rparr>)"
    unfolding setupParameterMemoryReferences_def cs1 by (simp add: mf)
  have o1: "map (\<lambda>ptx. offset (ptx_d ptx)) (all_instructions (cfg ?k1)) = [0, 0, 8]"
    by (simp add: map_instructions_def call_kernel_def all_instructions_def
        rewriteParameterInstruction_def map_operands_def rewriteParameterOperand_def
        callInstruction_def instruction_def argumentListOperand_def addressOperand_def noOperand_def)
  have o2: "map (\<lambda>ptx. offset (ptx_d ptx))
      (all_instructions (cfg (?k1\<lparr>cfg := map_instructions (rewriteParameterInstruction ?t) (cfg ?k1)\<rparr>))) = [0, 0, 16]"
    by (simp add: map_instructions_def call_kernel_def all_instructions_def
        rewriteParameterInstruction_def map_operands_def rewriteParameterOperand_def
        callInstruction_def instruction_def argumentListOperand_def addressOperand_def noOperand_def)
  show ?thesis
    unfolding run1 sum.case prod.case run2 o1 o2 by simp
qed

text \<open>The theorem at the same kernel: both runs return, with \<open>parameterSize = 16\<close>.\<close>

theorem parameter_layout_rerun_witness:
  "\<exists>kern1 metadata1 kern2.
     setupParameterMemoryReferences bytes4 (call_kernel [''a'', ''b'']) metadata0 = Inr (kern1, metadata1) \<and>
     setupParameterMemoryReferences bytes4 kern1 metadata1 = Inr (kern2, metadata1) \<and>
     parameterSize metadata1 = 16"
proof -
  have cs: "callSites bytes4 (all_instructions (cfg (call_kernel [''a'', ''b'']))) 0 Map.empty =
      Inr (12, [''ret'' \<mapsto> 0, ''a'' \<mapsto> 4, ''b'' \<mapsto> 8])"
    by (simp add: call_kernel_def all_instructions_def callInstruction_def instruction_def
        argumentListOperand_def functionOperand_def noOperand_def bytes4_def pad_def map_insert_def)
  have mf: "moduleFunctions (Module.kernels (module (call_kernel [''a'', ''b'']))) 12 = Inr 16"
    by (simp add: call_kernel_def two_function_module_def pad_def)
  obtain kern1 metadata1 where
    run1: "setupParameterMemoryReferences bytes4 (call_kernel [''a'', ''b'']) metadata0 = Inr (kern1, metadata1)"
    and ps: "parameterSize metadata1 = 16"
    by (simp add: setupParameterMemoryReferences_def cs mf)
  from parameter_layout_rerun [OF run1] obtain kern2 where
    "setupParameterMemoryReferences bytes4 kern1 metadata1 = Inr (kern2, metadata1)"
    by blast
  with run1 ps show ?thesis by blast
qed

subsection \<open>Shared memory\<close>

lemma sharedGlobals_run:
  "sharedGlobals bytesOf gs st =
   runDeclarations (map (global_declaration bytesOf)
     (filter (\<lambda>global. directive (statement (snd global)) = Directive_Shared) gs)) st"
  by (induction gs arbitrary: st) (simp_all add: global_declaration_def split: sum.splits)

lemma sharedLocals_run:
  "sharedLocals bytesOf ls st =
   runDeclarations (map (local_declaration bytesOf)
     (filter (\<lambda>local. space (snd local) = Shared) ls)) st"
  by (induction ls arbitrary: st) (simp_all add: local_declaration_def split: sum.splits)

lemma runDeclarations_append:
  "runDeclarations (xs @ ys) st =
   (case runDeclarations xs st of Inl e \<Rightarrow> Inl e | Inr st' \<Rightarrow> runDeclarations ys st')"
  by (induction xs st rule: runDeclarations.induct) (simp_all split: sum.splits)

lemma shared_loops_run:
  "(case sharedGlobals bytesOf (globals (module kern)) st of
      Inl e \<Rightarrow> Inl e | Inr st' \<Rightarrow> sharedLocals bytesOf (locals kern) st') =
   runDeclarations (shared_declarations bytesOf kern) st"
  by (simp add: shared_declarations_def runDeclarations_append sharedGlobals_run sharedLocals_run
      split: sum.splits)

lemma runDeclarations_Inr:
  "runDeclarations ds (offsets, external, eA, shSize) = Inr (offsets', external', eA', shSize') \<Longrightarrow>
   distinct (external_names ds) \<and> set (external_names ds) \<inter> external = {} \<and>
   external' = external \<union> set (external_names ds) \<and>
   eA' = fold max (external_widths ds) eA"
proof (induction ds arbitrary: offsets external eA shSize)
  case Nil
  then show ?case by (simp add: external_names_def external_widths_def)
next
  case (Cons d ds)
  obtain message isExtern nm algn width sz where d: "d = (message, isExtern, nm, algn, width, sz)"
    by (cases d)
  show ?case
  proof (cases isExtern)
    case True
    with Cons.prems d have fresh: "nm \<notin> external"
      by (auto simp: sharedDeclaration_def split: if_splits)
    with Cons.prems d True have
      "runDeclarations ds (offsets, insert nm external, max (max eA algn) width, shSize) =
         Inr (offsets', external', eA', shSize')"
      by (simp add: sharedDeclaration_def)
    note IH = Cons.IH [OF this]
    have names: "external_names (d # ds) = nm # external_names ds"
      and widths: "external_widths (d # ds) = algn # width # external_widths ds"
      using True by (simp_all add: d external_names_def external_widths_def
          is_external_def declared_name_def)
    have mx: "max width (max algn eA) = max (max eA algn) width"
      by (simp add: max.commute)
    show ?thesis
      using IH fresh unfolding names widths by (auto simp: mx)
  next
    case False
    with Cons.prems d obtain p padded where
      "runDeclarations ds (map_insert offsets nm padded, external, eA, padded + sz) =
         Inr (offsets', external', eA', shSize')"
      by (auto simp: sharedDeclaration_def split: sum.splits)
    from Cons.IH [OF this] show ?thesis
      using False
      by (auto simp: d external_names_def external_widths_def is_external_def declared_name_def)
  qed
qed

lemma runDeclarations_no_trap:
  "list_all (\<lambda>e. 0 < fst e) (packed_entries ds) \<Longrightarrow> runDeclarations ds st \<noteq> Inl DivisionByZero"
proof (induction ds arbitrary: st)
  case Nil
  then show ?case by simp
next
  case (Cons d ds)
  obtain message isExtern nm algn width sz where d: "d = (message, isExtern, nm, algn, width, sz)"
    by (cases d)
  obtain offsets external eA shSize where st: "st = (offsets, external, eA, shSize)"
    by (cases st)
  have rest: "list_all (\<lambda>e. 0 < fst e) (packed_entries ds)"
    using Cons.prems by (simp add: packed_entries_def split: if_splits)
  show ?case
  proof (cases isExtern)
    case True
    then show ?thesis
      using Cons.IH [OF rest] by (simp add: d st sharedDeclaration_def)
  next
    case False
    then have "algn \<noteq> 0"
      using Cons.prems by (simp add: d packed_entries_def is_external_def unat_gt_0)
    then show ?thesis
      using Cons.IH [OF rest] False by (simp add: d st sharedDeclaration_def pad_def Let_def)
  qed
qed

lemma runDeclarations_size:
  assumes "distinct (external_names ds)" "set (external_names ds) \<inter> external = {}"
      and "list_all (\<lambda>e. 0 < fst e) (packed_entries ds)"
      and "layout_size (packed_entries ds) (unat shSize) < 2 ^ 32"
  shows "\<exists>offsets'. runDeclarations ds (offsets, external, eA, shSize) =
           Inr (offsets', external \<union> set (external_names ds), fold max (external_widths ds) eA,
                of_nat (layout_size (packed_entries ds) (unat shSize)))"
  using assms
proof (induction ds arbitrary: offsets external eA shSize)
  case Nil
  then show ?case by (simp add: external_names_def external_widths_def packed_entries_def)
next
  case (Cons d ds)
  obtain message isExtern nm algn width sz where d: "d = (message, isExtern, nm, algn, width, sz)"
    by (cases d)
  show ?case
  proof (cases isExtern)
    case True
    have names: "external_names (d # ds) = nm # external_names ds"
      and widths: "external_widths (d # ds) = algn # width # external_widths ds"
      and entries: "packed_entries (d # ds) = packed_entries ds"
      using True by (simp_all add: d external_names_def external_widths_def packed_entries_def
          is_external_def declared_name_def)
    have fresh: "nm \<notin> external" using Cons.prems(2) by (simp add: names)
    have 1: "distinct (external_names ds)" using Cons.prems(1) by (simp add: names)
    have 2: "set (external_names ds) \<inter> insert nm external = {}"
      using Cons.prems(1,2) by (auto simp: names)
    have 3: "list_all (\<lambda>e. 0 < fst e) (packed_entries ds)" using Cons.prems(3) by (simp add: entries)
    have 4: "layout_size (packed_entries ds) (unat shSize) < 2 ^ 32"
      using Cons.prems(4) by (simp add: entries)
    have mx: "max width (max algn eA) = max (max eA algn) width"
      by (simp add: max.commute)
    from Cons.IH [OF 1 2 3 4, of offsets "max (max eA algn) width"]
    show ?thesis
      unfolding names widths entries
      using fresh True by (simp add: d sharedDeclaration_def mx)
  next
    case False
    let ?a = "unat algn" and ?n = "unat sz"
    let ?o = "unat shSize + padding_spec (unat shSize) ?a"
    have names: "external_names (d # ds) = external_names ds"
      and widths: "external_widths (d # ds) = external_widths ds"
      and entries: "packed_entries (d # ds) = (?a, ?n) # packed_entries ds"
      using False by (simp_all add: d external_names_def external_widths_def packed_entries_def
          is_external_def declared_name_def)
    have fits: "layout_size (packed_entries ds) (?o + ?n) < 2 ^ 32"
      using Cons.prems(4) by (simp add: entries)
    have le: "?o + ?n \<le> layout_size (packed_entries ds) (?o + ?n)" by (rule layout_size_ge)
    have o_fits: "?o + ?n < 2 ^ 32" using le fits by linarith
    then have o_fits': "?o < 2 ^ 32" by linarith
    have nz: "algn \<noteq> 0" using Cons.prems(3) by (simp add: entries unat_gt_0)
    have p: "pad shSize algn = Inr (of_nat (padding_spec (unat shSize) ?a), of_nat ?o)"
      using pad_spec [OF nz o_fits'] .
    have un: "unat (of_nat ?o + sz :: uint) = ?o + ?n"
      using o_fits unat_of_nat32 [OF o_fits'] by (simp add: unat_add_lem [THEN iffD1])
    have 1: "distinct (external_names ds)" using Cons.prems(1) by (simp add: names)
    have 2: "set (external_names ds) \<inter> external = {}" using Cons.prems(2) by (simp add: names)
    have 3: "list_all (\<lambda>e. 0 < fst e) (packed_entries ds)" using Cons.prems(3) by (simp add: entries)
    have 4: "layout_size (packed_entries ds) (unat (of_nat ?o + sz :: uint)) < 2 ^ 32"
      unfolding un by (rule fits)
    from Cons.IH [OF 1 2 3 4, of "map_insert offsets nm (of_nat ?o)" eA, unfolded un]
    obtain offsets' where
      r: "runDeclarations ds (map_insert offsets nm (of_nat ?o), external, eA, of_nat ?o + sz) =
          Inr (offsets', external \<union> set (external_names ds), fold max (external_widths ds) eA,
               of_nat (layout_size (packed_entries ds) (?o + ?n)))"
      by blast
    have "runDeclarations (d # ds) (offsets, external, eA, shSize) =
          runDeclarations ds (map_insert offsets nm (of_nat ?o), external, eA, of_nat ?o + sz)"
      using False by (simp only: d runDeclarations.simps sharedDeclaration_def prod.case p sum.case if_False)
    also note r
    finally show ?thesis
      unfolding names widths entries by simp
  qed
qed

lemma fold_max_Max: "fold max xs (x :: uint) = Max (insert x (set xs))"
  using Max.set_eq_fold [of x xs] by simp

lemma setupShared_run:
  "setupSharedMemoryReferences bytesOf kern metadata =
     (case runDeclarations (shared_declarations bytesOf kern) (Map.empty, {}, 1, 0) of
        Inl e \<Rightarrow> Inl e
      | Inr (offsets, external, externalAlignment, shSize) \<Rightarrow>
          (case pad shSize externalAlignment of
             Inl e \<Rightarrow> Inl e
           | Inr (padding, padded) \<Rightarrow>
               Inr (kern\<lparr>cfg := map_instructions (mapExternalInstruction external padded)
                            (map_instructions (rewriteSharedInstruction external offsets) (cfg kern))\<rparr>,
                    metadata\<lparr>sharedSize := padded\<rparr>)))"
  unfolding setupSharedMemoryReferences_def shared_loops_run [symmetric]
  by (simp split: sum.splits)

lemma map_instructions_comp:
  "map_instructions f (map_instructions g c) = map_instructions (\<lambda>ptx. f (g ptx)) c"
  by (simp add: map_instructions_def comp_def)

lemma external_alignment_nonzero: "external_alignment ds \<noteq> 0"
proof -
  have "1 \<le> external_alignment ds"
    unfolding external_alignment_def by (rule Max_ge) simp_all
  then show ?thesis by (metis word_le_0_iff zero_neq_one)
qed

lemma external_operand_rewritten:
  assumes "opcode ptx = Mov \<or> opcode ptx = Ld \<or> opcode ptx = St \<or> opcode ptx = Cvta"
  shows "list_all2 (\<lambda>operand operand'.
           addressMode operand = Address \<and> identifierName operand \<in> external \<longrightarrow>
             operand' = operand\<lparr>offset := offset operand + padded\<rparr>)
         (operands ptx)
         (operands (mapExternalInstruction external padded (rewriteSharedInstruction external offsets ptx)))"
  using assms
  by (auto simp: mapExternalInstruction_def rewriteSharedInstruction_def map_operands_def operands_def
      rewriteSharedOperand_def isExternalOperand_def)

text \<open>
  Claim C6, as amended. \<open>ds\<close> are the shared declarations in the order the pass meets
  them (module globals, then locals of the subkernel).
  \<^item> If two external declarations have the same name, the pass ends in an error; the error
    is the failed assertion when the packed (non-external) declarations have non-zero
    alignments.
  \<^item> If the external names are distinct, the packed declarations have non-zero alignments
    and the padded region fits in 32 bits, the pass succeeds; \<open>sharedSize\<close> is the packed
    size of the non-external entries padded to the external alignment (the maximum of 1
    and of every external entry's alignment and element width), so it is a multiple of
    that alignment; and the instructions of the result are those of the kernel, position
    by position, where in a \<open>Mov\<close>, \<open>Ld\<close>, \<open>St\<close> or \<open>Cvta\<close> instruction every Address
    operand that names an external entry is the original operand with the offset
    "original offset + \<open>sharedSize\<close>", and every other instruction is unchanged.
\<close>

theorem shared_layout:
  fixes bytesOf kern
  defines "ds \<equiv> shared_declarations bytesOf kern"
  defines "packed \<equiv> layout_size (packed_entries ds) 0"
  defines "padded \<equiv> packed + padding_spec packed (unat (external_alignment ds))"
  shows "(\<not> distinct (external_names ds) \<longrightarrow>
           (\<exists>e. setupSharedMemoryReferences bytesOf kern metadata = Inl e)) \<and>
         (\<not> distinct (external_names ds) \<and> list_all (\<lambda>e. 0 < fst e) (packed_entries ds) \<longrightarrow>
           (\<exists>msg. setupSharedMemoryReferences bytesOf kern metadata = Inl (AssertionFailure msg))) \<and>
         (distinct (external_names ds) \<and> list_all (\<lambda>e. 0 < fst e) (packed_entries ds) \<and>
          padded < 2 ^ 32 \<longrightarrow>
           (\<exists>kern' metadata'.
              setupSharedMemoryReferences bytesOf kern metadata = Inr (kern', metadata') \<and>
              unat (sharedSize metadata') = padded \<and>
              unat (sharedSize metadata') mod unat (external_alignment ds) = 0 \<and>
              cfg_rel (\<lambda>ptx ptx'.
                   if opcode ptx = Mov \<or> opcode ptx = Ld \<or> opcode ptx = St \<or> opcode ptx = Cvta
                   then list_all2 (\<lambda>operand operand'.
                          addressMode operand = Address \<and>
                          identifierName operand \<in> set (external_names ds) \<longrightarrow>
                            operand' = operand\<lparr>offset := offset operand + sharedSize metadata'\<rparr>)
                        (operands ptx) (operands ptx')
                   else ptx' = ptx)
               (cfg kern) (cfg kern')))"
proof -
  have A: "\<exists>e. setupSharedMemoryReferences bytesOf kern metadata = Inl e"
    if nd: "\<not> distinct (external_names ds)"
  proof (cases "runDeclarations ds (Map.empty, {}, 1, 0)")
    case (Inl e)
    then show ?thesis by (simp add: setupShared_run ds_def)
  next
    case (Inr st)
    obtain offsets' external' eA' shSize' where "st = (offsets', external', eA', shSize')"
      by (cases st)
    with Inr runDeclarations_Inr nd show ?thesis by blast
  qed
  have B: "\<exists>msg. setupSharedMemoryReferences bytesOf kern metadata = Inl (AssertionFailure msg)"
    if nd: "\<not> distinct (external_names ds)"
      and nz: "list_all (\<lambda>e. 0 < fst e) (packed_entries ds)"
  proof (cases "runDeclarations ds (Map.empty, {}, 1, 0)")
    case (Inl e)
    have "e \<noteq> DivisionByZero" using runDeclarations_no_trap [OF nz] Inl by metis
    then obtain msg where "e = AssertionFailure msg" by (cases e) auto
    with Inl show ?thesis by (simp add: setupShared_run ds_def)
  next
    case (Inr st)
    obtain offsets' external' eA' shSize' where "st = (offsets', external', eA', shSize')"
      by (cases st)
    with Inr runDeclarations_Inr nd show ?thesis by blast
  qed
  have C: "\<exists>kern' metadata'.
              setupSharedMemoryReferences bytesOf kern metadata = Inr (kern', metadata') \<and>
              unat (sharedSize metadata') = padded \<and>
              unat (sharedSize metadata') mod unat (external_alignment ds) = 0 \<and>
              cfg_rel (\<lambda>ptx ptx'.
                   if opcode ptx = Mov \<or> opcode ptx = Ld \<or> opcode ptx = St \<or> opcode ptx = Cvta
                   then list_all2 (\<lambda>operand operand'.
                          addressMode operand = Address \<and>
                          identifierName operand \<in> set (external_names ds) \<longrightarrow>
                            operand' = operand\<lparr>offset := offset operand + sharedSize metadata'\<rparr>)
                        (operands ptx) (operands ptx')
                   else ptx' = ptx)
               (cfg kern) (cfg kern')"
    if d: "distinct (external_names ds)"
      and nz: "list_all (\<lambda>e. 0 < fst e) (packed_entries ds)"
      and pf: "padded < 2 ^ 32"
  proof -
    let ?EA = "external_alignment ds"
    have fits: "packed < 2 ^ 32" using pf by (simp add: padded_def)
    have fits0: "layout_size (packed_entries ds) (unat (0 :: uint)) < 2 ^ 32"
      using fits by (simp add: packed_def)
    from runDeclarations_size [OF _ _ nz fits0, of "{}" Map.empty 1] d
    obtain offsets' where
      run: "runDeclarations ds (Map.empty, {}, 1, 0) =
              Inr (offsets', set (external_names ds), ?EA, of_nat packed)"
      by (auto simp: fold_max_Max external_alignment_def packed_def)
    have up: "unat (of_nat packed :: uint) = packed" using fits by (rule unat_of_nat32)
    have p: "pad (of_nat packed) ?EA =
               Inr (of_nat (padding_spec packed (unat ?EA)), of_nat padded)"
      using pad_spec [OF external_alignment_nonzero, of "of_nat packed" ds] pf
      unfolding up padded_def by simp
    let ?kern' = "kern\<lparr>cfg := map_instructions (mapExternalInstruction (set (external_names ds)) (of_nat padded))
                    (map_instructions (rewriteSharedInstruction (set (external_names ds)) offsets') (cfg kern))\<rparr>"
    have res: "setupSharedMemoryReferences bytesOf kern metadata =
                 Inr (?kern', metadata\<lparr>sharedSize := of_nat padded\<rparr>)"
      unfolding setupShared_run ds_def [symmetric] run sum.case prod.case p by simp
    have us: "unat (of_nat padded :: uint) = padded" using pf by (simp add: unat_of_nat32)
    have al: "padded mod unat ?EA = 0"
      unfolding padded_def using external_alignment_nonzero [of ds]
      by (intro padding_spec_aligned) (simp add: unat_gt_0)
    have rel: "cfg_rel (\<lambda>ptx ptx'.
                   if opcode ptx = Mov \<or> opcode ptx = Ld \<or> opcode ptx = St \<or> opcode ptx = Cvta
                   then list_all2 (\<lambda>operand operand'.
                          addressMode operand = Address \<and>
                          identifierName operand \<in> set (external_names ds) \<longrightarrow>
                            operand' = operand\<lparr>offset := offset operand + of_nat padded\<rparr>)
                        (operands ptx) (operands ptx')
                   else ptx' = ptx)
                 (cfg kern)
                 (map_instructions (\<lambda>ptx. mapExternalInstruction (set (external_names ds)) (of_nat padded)
                    (rewriteSharedInstruction (set (external_names ds)) offsets' ptx)) (cfg kern))"
    proof (rule cfg_rel_map_instructions)
      fix ptx
      show "if opcode ptx = Mov \<or> opcode ptx = Ld \<or> opcode ptx = St \<or> opcode ptx = Cvta
            then list_all2 (\<lambda>operand operand'.
                   addressMode operand = Address \<and>
                   identifierName operand \<in> set (external_names ds) \<longrightarrow>
                     operand' = operand\<lparr>offset := offset operand + of_nat padded\<rparr>)
                 (operands ptx)
                 (operands (mapExternalInstruction (set (external_names ds)) (of_nat padded)
                    (rewriteSharedInstruction (set (external_names ds)) offsets' ptx)))
            else mapExternalInstruction (set (external_names ds)) (of_nat padded)
                   (rewriteSharedInstruction (set (external_names ds)) offsets' ptx) = ptx"
      proof (cases "opcode ptx = Mov \<or> opcode ptx = Ld \<or> opcode ptx = St \<or> opcode ptx = Cvta")
        case True
        from external_operand_rewritten [OF True] True show ?thesis
          by (simp only: if_True)
      next
        case False
        then show ?thesis
          by (simp add: mapExternalInstruction_def rewriteSharedInstruction_def)
      qed
    qed
    let ?metadata' = "metadata\<lparr>sharedSize := of_nat padded\<rparr>"
    have cfg': "cfg ?kern' =
        map_instructions (\<lambda>ptx. mapExternalInstruction (set (external_names ds)) (of_nat padded)
          (rewriteSharedInstruction (set (external_names ds)) offsets' ptx)) (cfg kern)"
      by (simp add: map_instructions_comp)
    have ss: "sharedSize ?metadata' = of_nat padded" by simp
    show ?thesis
    proof (intro exI [of _ ?kern'] exI [of _ ?metadata'] conjI)
      show "setupSharedMemoryReferences bytesOf kern metadata = Inr (?kern', ?metadata')"
        by (rule res)
      show "unat (sharedSize ?metadata') = padded"
        unfolding ss by (rule us)
      show "unat (sharedSize ?metadata') mod unat (external_alignment ds) = 0"
        unfolding ss us by (rule al)
      show "cfg_rel (\<lambda>ptx ptx'.
                   if opcode ptx = Mov \<or> opcode ptx = Ld \<or> opcode ptx = St \<or> opcode ptx = Cvta
                   then list_all2 (\<lambda>operand operand'.
                          addressMode operand = Address \<and>
                          identifierName operand \<in> set (external_names ds) \<longrightarrow>
                            operand' = operand\<lparr>offset := offset operand + sharedSize ?metadata'\<rparr>)
                        (operands ptx) (operands ptx')
                   else ptx' = ptx)
               (cfg kern) (cfg ?kern')"
        unfolding ss cfg' by (rule rel)
    qed
  qed
  from A B C show ?thesis by blast
qed

lemma shared_example_declarations:
  "shared_declarations bytes4 (shared_example opc others) =
     (''External global more than once.'', True, ''dyn'', 16, 4, 0) #
     (''external.count(local->second.name) == 0'', False, ''tile'', 4, 4, 20) #
     map (local_declaration bytes4) (filter (\<lambda>local. space (snd local) = Shared) others)"
  by (simp add: shared_declarations_def shared_example_def global_declaration_def
      local_declaration_def bytes4_def)

lemma shared_example_run:
  "setupSharedMemoryReferences bytes4 (shared_example opc []) metadata0 =
     Inr ((shared_example opc [])
            \<lparr>cfg := [\<lparr>instructions =
               [mapExternalInstruction {''dyn''} 32
                  (rewriteSharedInstruction {''dyn''} [''tile'' \<mapsto> 0]
                     (instruction opc noOperand (addressOperand ''dyn'' 0)))]\<rparr>]\<rparr>,
          metadata0\<lparr>sharedSize := 32\<rparr>)"
  unfolding setupShared_run shared_example_declarations
  by (simp add: sharedDeclaration_def pad_def map_insert_def map_instructions_def shared_example_def)

text \<open>
  The theorem at two kernels. In the first, the module declares the external shared
  array \<open>dyn\<close> (alignment 16) and the subkernel a shared local \<open>tile\<close> of 20 bytes:
  \<open>sharedSize\<close> is 32 and the \<open>Ld\<close> operand \<open>[dyn]\<close> moves to offset 32. In the second, the
  subkernel declares an external shared local \<open>dyn\<close> as well, and the pass fails the
  assertion.
\<close>

theorem shared_layout_witness:
  "list_all (\<lambda>e. 0 < fst e) (packed_entries (shared_declarations bytes4 (shared_example Ld []))) \<and>
   external_names (shared_declarations bytes4 (shared_example Ld [])) = [''dyn''] \<and>
   external_alignment (shared_declarations bytes4 (shared_example Ld [])) = 16 \<and>
   (case setupSharedMemoryReferences bytes4 (shared_example Ld []) metadata0 of
      Inl e \<Rightarrow> None
    | Inr (kern', metadata') \<Rightarrow>
        Some (sharedSize metadata', map (\<lambda>ptx. offset (ptx_a ptx)) (all_instructions (cfg kern')))) =
     Some (32, [32]) \<and>
   list_all (\<lambda>e. 0 < fst e)
     (packed_entries (shared_declarations bytes4 (shared_example Ld [extern_dyn_local]))) \<and>
   external_names (shared_declarations bytes4 (shared_example Ld [extern_dyn_local])) = [''dyn'', ''dyn''] \<and>
   (\<exists>msg. setupSharedMemoryReferences bytes4 (shared_example Ld [extern_dyn_local]) metadata0 =
      Inl (AssertionFailure msg))"
proof -
  let ?ok = "shared_declarations bytes4 (shared_example Ld [])"
  let ?dup = "shared_declarations bytes4 (shared_example Ld [extern_dyn_local])"
  have nz: "list_all (\<lambda>e. 0 < fst e) (packed_entries ?ok)"
    by (simp add: shared_example_declarations packed_entries_def is_external_def)
  have names: "external_names ?ok = [''dyn'']"
    by (simp add: shared_example_declarations external_names_def is_external_def declared_name_def)
  have ea: "external_alignment ?ok = 16"
    by (simp add: shared_example_declarations external_alignment_def external_widths_def is_external_def)
  have nz': "list_all (\<lambda>e. 0 < fst e) (packed_entries ?dup)"
    by (simp add: shared_example_declarations packed_entries_def is_external_def
        extern_dyn_local_def local_declaration_def)
  have names': "external_names ?dup = [''dyn'', ''dyn'']"
    by (simp add: shared_example_declarations external_names_def is_external_def declared_name_def
        extern_dyn_local_def local_declaration_def)
  have run: "(case setupSharedMemoryReferences bytes4 (shared_example Ld []) metadata0 of
      Inl e \<Rightarrow> None
    | Inr (kern', metadata') \<Rightarrow>
        Some (sharedSize metadata', map (\<lambda>ptx. offset (ptx_a ptx)) (all_instructions (cfg kern')))) =
     Some (32, [32])"
    by (simp add: shared_example_run all_instructions_def mapExternalInstruction_def
        rewriteSharedInstruction_def map_operands_def rewriteSharedOperand_def isExternalOperand_def
        instruction_def addressOperand_def noOperand_def)
  have "\<not> distinct (external_names ?dup)" by (simp add: names')
  with shared_layout [of bytes4 "shared_example Ld [extern_dyn_local]" metadata0] nz'
  have dup: "\<exists>msg. setupSharedMemoryReferences bytes4 (shared_example Ld [extern_dyn_local]) metadata0 =
      Inl (AssertionFailure msg)"
    by blast
  show ?thesis using nz names ea run nz' names' dup by simp
qed

text \<open>
  The condition on the alignments in the second part is needed: when a packed
  declaration of alignment zero stands before the second of two external declarations
  of the same name, the pass ends in the division by zero of \<open>pad\<close>, not in the
  assertion.
\<close>

lemma shared_duplicate_behind_division:
  "external_names (shared_declarations bytes4 (shared_example Ld [unaligned_local, extern_dyn_local])) =
     [''dyn'', ''dyn''] \<and>
   setupSharedMemoryReferences bytes4 (shared_example Ld [unaligned_local, extern_dyn_local]) metadata0 =
     Inl DivisionByZero"
  unfolding setupShared_run shared_example_declarations
  by (simp add: sharedDeclaration_def pad_def map_insert_def external_names_def is_external_def
      declared_name_def extern_dyn_local_def unaligned_local_def local_declaration_def)

text \<open>
  Claim C6 as stated fails: in the first kernel with an \<open>Atom\<close> in place of the \<open>Ld\<close>,
  the operand is in Address mode and names the external entry \<open>dyn\<close>, \<open>sharedSize\<close> is 32,
  and the operand stays at offset 0.
\<close>

theorem shared_external_rewrite_counterexample:
  "map (\<lambda>ptx. (opcode ptx, addressMode (ptx_a ptx), identifierName (ptx_a ptx), offset (ptx_a ptx)))
       (all_instructions (cfg (shared_example Atom []))) = [(Atom, Address, ''dyn'', 0)] \<and>
   external_names (shared_declarations bytes4 (shared_example Atom [])) = [''dyn''] \<and>
   (case setupSharedMemoryReferences bytes4 (shared_example Atom []) metadata0 of
      Inl e \<Rightarrow> None
    | Inr (kern', metadata') \<Rightarrow>
        Some (sharedSize metadata', map (\<lambda>ptx. offset (ptx_a ptx)) (all_instructions (cfg kern')))) =
     Some (32, [0])"
  by (simp add: shared_example_run all_instructions_def mapExternalInstruction_def
        rewriteSharedInstruction_def instruction_def addressOperand_def noOperand_def
        shared_example_declarations external_names_def is_external_def declared_name_def)
    (simp add: shared_example_def all_instructions_def instruction_def addressOperand_def noOperand_def)

subsection \<open>Local memory\<close>

lemma argumentOffsets_append:
  "argumentOffsets (xs @ ys) off offsets =
     andThen (argumentOffsets xs off offsets) (\<lambda>st. argumentOffsets ys (fst st) (snd st))"
  by (induction xs arbitrary: off offsets) (simp_all add: andThen_def split: sum.splits)

lemma placeLocal_slots:
  "placeLocal local (lSize, offsets) =
     argumentOffsets (map slot_parameter (if space local = Local then [local_slot local] else []))
       lSize offsets"
  by (simp add: placeLocal_def slot_parameter_def local_slot_def split: sum.splits)

lemma placeNamedLocal_slots:
  "placeNamedLocal key ls (lSize, offsets) =
     argumentOffsets (map slot_parameter (named_slot key ls)) lSize offsets"
  by (simp add: placeNamedLocal_def named_slot_def placeLocal_slots split: option.splits)

lemma reservedSlot_slots:
  "reservedSlot nm (lSize, offsets) = argumentOffsets (map slot_parameter [(nm, 4, 4)]) lSize offsets"
  by (simp add: reservedSlot_def slot_parameter_def split: sum.splits)

lemma ordinaryLocals_slots:
  "ordinaryLocals ls (lSize, offsets) =
     argumentOffsets (map slot_parameter (ordinary_slots ls)) lSize offsets"
proof (induction ls arbitrary: lSize offsets)
  case Nil
  then show ?case by (simp add: ordinary_slots_def)
next
  case (Cons entry ls)
  show ?case
  proof (cases "fst entry \<in> set reserved_keys")
    case True
    then have "ordinaryLocals (entry # ls) (lSize, offsets) = ordinaryLocals ls (lSize, offsets)"
      by (auto simp: reserved_keys_def)
    then show ?thesis using True by (simp add: Cons.IH ordinary_slots_def is_ordinary_def)
  next
    case False
    then have run: "ordinaryLocals (entry # ls) (lSize, offsets) =
        andThen (placeLocal (snd entry) (lSize, offsets)) (ordinaryLocals ls)"
      by (auto simp: reserved_keys_def)
    have slots: "ordinary_slots (entry # ls) =
        (if space (snd entry) = Local then [local_slot (snd entry)] else []) @ ordinary_slots ls"
      using False by (simp add: ordinary_slots_def is_ordinary_def)
    have "andThen (placeLocal (snd entry) (lSize, offsets)) (ordinaryLocals ls) =
          andThen (placeLocal (snd entry) (lSize, offsets))
            (\<lambda>st. argumentOffsets (map slot_parameter (ordinary_slots ls)) (fst st) (snd st))"
      by (simp add: andThen_def Cons.IH split: sum.splits prod.splits)
    then show ?thesis
      unfolding run slots map_append argumentOffsets_append placeLocal_slots .
  qed
qed

lemma localOffsets_slots:
  "localOffsets kern = argumentOffsets (map slot_parameter (local_slots kern)) 0 Map.empty"
proof -
  have 1: "andThen r (\<lambda>st. f st) = andThen r (\<lambda>st. f (fst st, snd st))" for r :: "error + LocalState"
    and f :: "LocalState \<Rightarrow> error + LocalState"
    by simp
  show ?thesis
    unfolding localOffsets_def local_slots_def map_append argumentOffsets_append
    by (subst 1, subst placeNamedLocal_slots reservedSlot_slots ordinaryLocals_slots)+
      (simp add: placeNamedLocal_slots andThen_def split: sum.splits prod.splits)
qed

lemma layout_offsets_ge: "i < length es \<Longrightarrow> s \<le> layout_offsets es s ! i"
proof (induction es s arbitrary: i rule: layout_offsets.induct)
  case (1 s)
  then show ?case by simp
next
  case (2 a n es s)
  show ?case
  proof (cases i)
    case 0
    then show ?thesis by simp
  next
    case (Suc k)
    with "2.prems" have "s + padding_spec s a + n \<le> layout_offsets es (s + padding_spec s a + n) ! k"
      by (intro "2.IH") simp
    then show ?thesis using Suc by simp
  qed
qed

lemma layout_offsets_mono:
  "i < j \<Longrightarrow> j < length es \<Longrightarrow>
   layout_offsets es s ! i + snd (es ! i) \<le> layout_offsets es s ! j"
proof (induction es s arbitrary: i j rule: layout_offsets.induct)
  case (1 s)
  then show ?case by simp
next
  case (2 a n es s)
  from "2.prems" obtain k where j: "j = Suc k" by (cases j) auto
  show ?case
  proof (cases i)
    case 0
    have "s + padding_spec s a + n \<le> layout_offsets es (s + padding_spec s a + n) ! k"
      using "2.prems" j by (intro layout_offsets_ge) simp
    then show ?thesis using 0 j by simp
  next
    case (Suc l)
    then show ?thesis using "2.prems" j "2.IH" [of l k] by simp
  qed
qed

lemma layout_offsets_end:
  "i < length es \<Longrightarrow> layout_offsets es s ! i + snd (es ! i) \<le> layout_size es s"
proof (induction es s arbitrary: i rule: layout_offsets.induct)
  case (1 s)
  then show ?case by simp
next
  case (2 a n es s)
  show ?case
  proof (cases i)
    case 0
    then show ?thesis using layout_size_ge [of "s + padding_spec s a + n" es] by simp
  next
    case (Suc k)
    then show ?thesis using "2.prems" "2.IH" [of k] by simp
  qed
qed

lemma named_slot_names:
  assumes "list_all (\<lambda>entry. Local.name (snd entry) = fst entry) ls"
      and "slot \<in> set (named_slot key ls)"
  shows "fst slot = key"
proof (cases "map_of ls key")
  case None
  then show ?thesis using assms(2) by (simp add: named_slot_def)
next
  case (Some local)
  then have "(key, local) \<in> set ls" by (rule map_of_SomeD)
  with assms(1) have "Local.name local = key" by (auto simp: list_all_iff)
  with Some assms(2) show ?thesis by (simp add: named_slot_def local_slot_def split: if_splits)
qed

lemma ordinary_slots_names:
  assumes "list_all (\<lambda>entry. Local.name (snd entry) = fst entry) ls"
  shows "map fst (ordinary_slots ls) = map fst (filter is_ordinary ls)"
proof -
  have "map fst (ordinary_slots ls) = map (\<lambda>entry. Local.name (snd entry)) (filter is_ordinary ls)"
    by (simp add: ordinary_slots_def local_slot_def comp_def)
  also have "\<dots> = map fst (filter is_ordinary ls)"
  proof (rule map_cong [OF refl])
    fix entry
    assume "entry \<in> set (filter is_ordinary ls)"
    then have "entry \<in> set ls" by simp
    with assms show "Local.name (snd entry) = fst entry"
      unfolding list_all_iff by (rule bspec)
  qed
  finally show ?thesis .
qed

lemma local_slots_distinct:
  assumes d: "distinct (map fst (locals kern))"
      and n: "list_all (\<lambda>entry. Local.name (snd entry) = fst entry) (locals kern)"
  shows "distinct (map fst (local_slots kern))"
proof -
  let ?b = "named_slot ''_Zocelot_barrier_next_kernel'' (locals kern)"
  let ?s = "named_slot ''_Zocelot_spill_area'' (locals kern)"
  let ?o = "ordinary_slots (locals kern)"
  have b: "set (map fst ?b) \<subseteq> {''_Zocelot_barrier_next_kernel''}"
    and s: "set (map fst ?s) \<subseteq> {''_Zocelot_spill_area''}"
    using named_slot_names [OF n] by auto
  have lb: "length ?b \<le> 1" and ls: "length ?s \<le> 1"
    by (simp_all add: named_slot_def split: option.splits)
  have db: "distinct (map fst ?b)" using lb by (cases ?b) auto
  have ds: "distinct (map fst ?s)" using ls by (cases ?s) auto
  have o: "map fst ?o = map fst (filter is_ordinary (locals kern))"
    by (rule ordinary_slots_names [OF n])
  have do: "distinct (map fst ?o)" unfolding o using d by (rule distinct_map_filter)
  have ro: "set (map fst ?o) \<inter> set reserved_keys = {}"
    unfolding o by (auto simp: is_ordinary_def)
  have bk: "fst slot = ''_Zocelot_barrier_next_kernel''" if "slot \<in> set ?b" for slot
    using that by (rule named_slot_names [OF n])
  have sk: "fst slot = ''_Zocelot_spill_area''" if "slot \<in> set ?s" for slot
    using that by (rule named_slot_names [OF n])
  have ok: "fst slot \<notin> set reserved_keys" if "slot \<in> set ?o" for slot
    using that ro by auto
  have bo: "set (map fst ?b) \<inter> set (map fst ?o) = {}"
    using bk ok by (fastforce simp: reserved_keys_def)
  have so: "set (map fst ?o) \<inter> set (map fst ?s) = {}"
    using sk ok by (fastforce simp: reserved_keys_def)
  have bs: "set (map fst ?b) \<inter> set (map fst ?s) = {}"
    using bk sk by fastforce
  have br: "set (map fst ?b) \<inter> {''_Zocelot_resume_status'', ''_Zocelot_resume_point''} = {}"
    using bk by fastforce
  have sr: "set (map fst ?s) \<inter> {''_Zocelot_resume_status'', ''_Zocelot_resume_point''} = {}"
    using sk by fastforce
  have or: "set (map fst ?o) \<inter> {''_Zocelot_resume_status'', ''_Zocelot_resume_point''} = {}"
    using ok by (fastforce simp: reserved_keys_def)
  have "distinct (map fst ?b @ [''_Zocelot_resume_status'', ''_Zocelot_resume_point''] @
                  map fst ?o @ map fst ?s)"
    unfolding distinct_append set_append
    using db ds do bo so bs br sr or by (simp add: Int_Un_distrib Int_Un_distrib2 Int_commute)
  then show ?thesis by (simp add: local_slots_def)
qed

text \<open>
  Claim C7, as amended. \<open>local_slots\<close> lists the slots in the order of the claim: the
  barrier-resume slot when the subkernel declares \<open>_Zocelot_barrier_next_kernel\<close> in the
  local space, the
  resume-status slot and the resume-point slot (4 bytes each, aligned to 4), the ordinary
  locals in the order of \<open>kernel.locals\<close>, and the spill area when the subkernel declares
  \<open>_Zocelot_spill_area\<close> in the local space. For a well-formed map of locals (distinct
  keys, each the name of its local), non-zero alignments and a layout that fits in 32
  bits, the pass succeeds and lays the slots out sequentially in exactly this order:
  slot \<open>i\<close> is at \<open>layout_offsets es 0 ! i\<close>, every slot ends at or before the start of
  each later slot, and every slot ends at or before \<open>localSize\<close>. So the reserved slots
  have the lowest offsets, in the fixed order, and the spill area, the last slot, has
  the highest offset range.
\<close>

theorem local_layout:
  fixes kern
  defines "slots \<equiv> local_slots kern"
  defines "es \<equiv> slot_entries (local_slots kern)"
  assumes d: "distinct (map fst (locals kern))"
      and n: "list_all (\<lambda>entry. Local.name (snd entry) = fst entry) (locals kern)"
      and nz: "list_all (\<lambda>e. 0 < fst e) es"
      and fits: "layout_size es 0 < 2 ^ 32"
  shows "\<exists>kern' metadata' offsets.
      setupLocalMemoryReferences kern metadata = Inr (kern', metadata') \<and>
      localOffsets kern = Inr (localSize metadata', offsets) \<and>
      unat (localSize metadata') = layout_size es 0 \<and>
      (\<forall>i < length slots. offsets (fst (slots ! i)) = Some (of_nat (layout_offsets es 0 ! i))) \<and>
      (\<forall>i < length slots. \<forall>j < length slots.
         i < j \<longrightarrow> layout_offsets es 0 ! i + snd (es ! i) \<le> layout_offsets es 0 ! j) \<and>
      (\<forall>i < length slots. layout_offsets es 0 ! i + snd (es ! i) \<le> layout_size es 0)"
proof -
  let ?ps = "map slot_parameter slots"
  let ?kvs = "zip (map fst slots) (layout_offsets es 0)"
  let ?table = "insert_all ?kvs Map.empty"
  have len: "length es = length slots" by (simp add: es_def slots_def slot_entries_def)
  have entries: "argument_entries ?ps = es"
    by (simp add: argument_entries_def es_def slots_def slot_entries_def slot_parameter_def comp_def)
  have names: "map Parameter.name ?ps = map fst slots"
    by (simp add: slot_parameter_def comp_def)
  have nz': "list_all (\<lambda>p. getAlignment p \<noteq> 0) ?ps"
    using nz by (simp add: es_def slots_def slot_entries_def slot_parameter_def list_all_iff unat_gt_0)
  have fits': "layout_size (argument_entries ?ps) (unat (0 :: uint)) < 2 ^ 32"
    unfolding entries using fits by simp
  have slots: "localOffsets kern = argumentOffsets ?ps 0 Map.empty"
    unfolding slots_def by (rule localOffsets_slots)
  have run: "localOffsets kern = Inr (of_nat (layout_size es 0), ?table)"
    unfolding slots argumentOffsets_spec [OF nz' fits', of Map.empty] entries names by simp
  have dist: "distinct (map fst ?kvs)"
  proof -
    have "map fst ?kvs = map fst slots" using len by (intro map_fst_zip) simp
    then show ?thesis using local_slots_distinct [OF d n] by (simp add: slots_def)
  qed
  have lookup: "?table (fst (slots ! i)) = Some (of_nat (layout_offsets es 0 ! i))"
    if "i < length slots" for i
  proof -
    have i: "i < length ?kvs" using that len by simp
    have e: "Map.empty (fst (?kvs ! i)) = None" by simp
    have "?table (fst (?kvs ! i)) = Some (of_nat (snd (?kvs ! i)))"
      using dist i e by (rule insert_all_lookup)
    then show ?thesis using that len by simp
  qed
  have size: "unat (of_nat (layout_size es 0) :: uint) = layout_size es 0"
    using fits by (rule unat_of_nat32)
  have mono: "layout_offsets es 0 ! i + snd (es ! i) \<le> layout_offsets es 0 ! j"
    if "i < j" "j < length slots" for i j
    using that len by (simp add: layout_offsets_mono)
  have last: "layout_offsets es 0 ! i + snd (es ! i) \<le> layout_size es 0" if "i < length slots" for i
    using that len by (simp add: layout_offsets_end)
  let ?kern' = "kern\<lparr>cfg := map_instructions (rewriteLocalInstruction ?table) (cfg kern)\<rparr>"
  let ?metadata' = "metadata\<lparr>localSize := of_nat (layout_size es 0)\<rparr>"
  have res: "setupLocalMemoryReferences kern metadata = Inr (?kern', ?metadata')"
    by (simp add: setupLocalMemoryReferences_def run)
  have run': "localOffsets kern = Inr (localSize ?metadata', ?table)"
    using run by simp
  have size': "unat (localSize ?metadata') = layout_size es 0"
    using size by simp
  show ?thesis
  proof (intro exI conjI allI impI)
    show "setupLocalMemoryReferences kern metadata = Inr (?kern', ?metadata')" by (rule res)
    show "localOffsets kern = Inr (localSize ?metadata', ?table)" by (rule run')
    show "unat (localSize ?metadata') = layout_size es 0" by (rule size')
    show "?table (fst (slots ! i)) = Some (of_nat (layout_offsets es 0 ! i))"
      if "i < length slots" for i using that by (rule lookup)
    show "layout_offsets es 0 ! i + snd (es ! i) \<le> layout_offsets es 0 ! j"
      if "j < length slots" "i < j" for i j using that(2,1) by (rule mono)
    show "layout_offsets es 0 ! i + snd (es ! i) \<le> layout_size es 0"
      if "i < length slots" for i using that by (rule last)
  qed
qed

text \<open>
  The theorem at a subkernel that declares, in this order, the spill area (64 bytes,
  alignment 16), a local \<open>buf\<close> (24 bytes, alignment 8), a shared variable (not part of
  the local layout) and the barrier-resume slot: the offsets are 0 (barrier), 4 (status),
  8 (point), 16 (\<open>buf\<close>) and 48 (spill area), and \<open>localSize\<close> is 112.
\<close>

theorem local_layout_witness:
  "local_slots local_example =
     [(''_Zocelot_barrier_next_kernel'', 4, 4), (''_Zocelot_resume_status'', 4, 4),
      (''_Zocelot_resume_point'', 4, 4), (''buf'', 8, 24), (''_Zocelot_spill_area'', 16, 64)] \<and>
   layout_offsets (slot_entries (local_slots local_example)) 0 = [0, 4, 8, 16, 48] \<and>
   (\<exists>kern' metadata'. setupLocalMemoryReferences local_example metadata0 = Inr (kern', metadata') \<and>
      unat (localSize metadata') = 112)"
proof -
  have slots: "local_slots local_example =
     [(''_Zocelot_barrier_next_kernel'', 4, 4), (''_Zocelot_resume_status'', 4, 4),
      (''_Zocelot_resume_point'', 4, 4), (''buf'', 8, 24), (''_Zocelot_spill_area'', 16, 64)]"
    by (simp add: local_slots_def local_example_def named_slot_def ordinary_slots_def
        is_ordinary_def reserved_keys_def local_slot_def)
  have offs: "layout_offsets (slot_entries (local_slots local_example)) 0 = [0, 4, 8, 16, 48]"
    unfolding slots by (simp add: slot_entries_def padding_spec_def)
  have size: "layout_size (slot_entries (local_slots local_example)) 0 = 112"
    unfolding slots by (simp add: slot_entries_def padding_spec_def)
  have d: "distinct (map fst (locals local_example))"
    by (simp add: local_example_def)
  have n: "list_all (\<lambda>entry. Local.name (snd entry) = fst entry) (locals local_example)"
    by (simp add: local_example_def)
  have nz: "list_all (\<lambda>e. 0 < fst e) (slot_entries (local_slots local_example))"
    unfolding slots by (simp add: slot_entries_def)
  have fits: "layout_size (slot_entries (local_slots local_example)) 0 < 2 ^ 32"
    unfolding size by simp
  from local_layout [OF d n nz fits, of metadata0]
  obtain kern' metadata' where
    "setupLocalMemoryReferences local_example metadata0 = Inr (kern', metadata')"
    "unat (localSize metadata') = 112"
    unfolding size by blast
  then show ?thesis using slots offs by blast
qed

text \<open>
  Claim C7 as stated fails: a subkernel that declares a local \<open>big\<close> of \<open>2\<^sup>3\<^sup>2 - 8\<close> bytes
  (alignment 8) and the spill area (64 bytes, alignment 16). The map of locals is well
  formed and every alignment is non-zero. The pass returns normally. The resume-status
  slot is at offset 0, the resume-point slot at 4 and \<open>big\<close> at 8; the 32-bit size then
  wraps around to 0, and the spill area, the last slot placed, is at offset 0 as well,
  over the reserved slots, and \<open>localSize\<close> is 64.
\<close>

theorem local_layout_wraps:
  "local_slots wrapping_local_example =
     [(''_Zocelot_resume_status'', 4, 4), (''_Zocelot_resume_point'', 4, 4),
      (''big'', 8, 0xFFFFFFF8), (''_Zocelot_spill_area'', 16, 64)] \<and>
   distinct (map fst (locals wrapping_local_example)) \<and>
   list_all (\<lambda>entry. Local.name (snd entry) = fst entry) (locals wrapping_local_example) \<and>
   (case setupLocalMemoryReferences wrapping_local_example metadata0 of
      Inl e \<Rightarrow> None
    | Inr (kern', metadata') \<Rightarrow> Some (localSize metadata')) = Some 64 \<and>
   (case localOffsets wrapping_local_example of
      Inl e \<Rightarrow> None
    | Inr (lSize, offsets) \<Rightarrow>
        Some (map offsets [''_Zocelot_resume_status'', ''_Zocelot_resume_point'', ''big'',
                ''_Zocelot_spill_area''])) =
     Some [Some 0, Some 4, Some 8, Some 0]"
proof -
  have slots: "local_slots wrapping_local_example =
     [(''_Zocelot_resume_status'', 4, 4), (''_Zocelot_resume_point'', 4, 4),
      (''big'', 8, 0xFFFFFFF8), (''_Zocelot_spill_area'', 16, 64)]"
    by (simp add: local_slots_def wrapping_local_example_def named_slot_def ordinary_slots_def
        is_ordinary_def reserved_keys_def local_slot_def)
  have wrap: "(4294967296 :: uint) = 0" by simp
  have run: "localOffsets wrapping_local_example =
      Inr (64, [''_Zocelot_resume_status'' \<mapsto> 0, ''_Zocelot_resume_point'' \<mapsto> 4, ''big'' \<mapsto> 8,
                ''_Zocelot_spill_area'' \<mapsto> 0])"
    by (simp add: localOffsets_def wrapping_local_example_def andThen_def placeNamedLocal_def
        reservedSlot_def placeLocal_def pad_def map_insert_def wrap)
  have res: "(case setupLocalMemoryReferences wrapping_local_example metadata0 of
      Inl e \<Rightarrow> None
    | Inr (kern', metadata') \<Rightarrow> Some (localSize metadata')) = Some 64"
    by (simp add: setupLocalMemoryReferences_def run)
  have wf: "distinct (map fst (locals wrapping_local_example)) \<and>
      list_all (\<lambda>entry. Local.name (snd entry) = fst entry) (locals wrapping_local_example)"
    by (simp add: wrapping_local_example_def)
  show ?thesis
    unfolding slots using res wf by (simp add: run)
qed

subsection \<open>Call targets\<close>

lemma callTargets_result:
  "callTargets instrs =
     (if list_ex unsupported_call instrs
      then Inl (AssertionFailure ''arbitrary function calls not yet supported'')
      else Inr ())"
  by (induction instrs) (auto simp: unsupported_call_def)

text \<open>
  Claim C8, as amended. The call-target pass writes nothing. It returns, with the kernel
  as it was, exactly when no instruction is an unsupported call: a \<open>Call\<close> or \<open>Mov\<close> that
  is not a tail call and whose operand \<open>a\<close> is a function name other than
  \<open>ptx.warp.divergent\<close>. Tail calls, calls of the intrinsic and instructions whose
  operand \<open>a\<close> is not a function name are skipped. Otherwise the pass ends in the failed
  assertion, whether or not the name is that of another subkernel or of a function of
  the module, and whatever the translation cache holds: no operand is ever given a
  resolved target.
\<close>

theorem call_targets:
  "setupCallTargets kern cache =
     (if list_ex unsupported_call (all_instructions (cfg kern))
      then Inl (AssertionFailure ''arbitrary function calls not yet supported'')
      else Inr kern)"
  by (simp add: setupCallTargets_def callTargets_result)

text \<open>
  Claim C8 as stated fails: the module declares the function \<open>f\<close>, and the subkernel
  calls it by name (not a tail call). The pass does not resolve the call; it ends in the
  failed assertion.
\<close>

theorem call_target_not_resolved:
  "map fst (Module.kernels (module (call_kernel [''a'', ''b'']))) = [''entry'', ''f''] \<and>
   map (\<lambda>ptx. (opcode ptx, tailCall ptx, addressMode (ptx_a ptx), identifierName (ptx_a ptx)))
     (all_instructions (cfg (call_kernel [''a'', ''b'']))) =
     [(Call, False, FunctionName, ''ptx.warp.divergent''), (Call, False, FunctionName, ''f''),
      (St, False, Invalid, [])] \<and>
   setupCallTargets (call_kernel [''a'', ''b'']) () =
     Inl (AssertionFailure ''arbitrary function calls not yet supported'')"
  by (simp add: call_kernel_def two_function_module_def all_instructions_def callInstruction_def
      instruction_def functionOperand_def argumentListOperand_def addressOperand_def noOperand_def
      setupCallTargets_def)

subsection \<open>The translation cache\<close>

text \<open>
  Claim C2 fails on the code. The module \<open>m\<close> is loaded and the kernel \<open>k\<close> of \<open>m\<close>, with
  subkernels 7 and 8, is registered twice, with a front end that succeeds. The test of
  \<^verbatim>\<open>registerKernel\<close> reads \<^verbatim>\<open>module.kernels\<close>, which no function fills: after the first
  registration it is still empty, the second registration creates a second translated
  kernel (at address 22, after the first at 20) and runs the pipeline for both
  subkernels again.
\<close>

theorem registerKernel_twice:
  "(case loadModule ''m'' 1 2 empty_cache of
      Returns loaded s0 \<Rightarrow>
        (case registerKernel good_frontend example_kernel s0 of
           Returns u1 s1 \<Rightarrow>
             (case registerKernel good_frontend example_kernel s1 of
                Returns u2 s2 \<Rightarrow>
                  Some (map_option (\<lambda>module'. ModuleMetadata.kernels module' ''k'') (modules s1 ''m''),
                        pipelineRuns s1, DynamicTranslationCache.kernels s1 3,
                        pipelineRuns s2, DynamicTranslationCache.kernels s2 3,
                        map (\<lambda>p. map_option kernelPtr (translatedKernels s2 p)) [20, 22])
              | Throws message s2 \<Rightarrow> None
              | Aborts e \<Rightarrow> None)
         | Throws message s1 \<Rightarrow> None
         | Aborts e \<Rightarrow> None)
    | Throws message s0 \<Rightarrow> None
    | Aborts e \<Rightarrow> None) =
   Some (Some None, [7, 8], Some 20, [7, 8, 7, 8], Some 22, [Some 3, Some 3])"
  by (simp add: loadModule_def registerKernel_def translateKernel_def empty_cache_def
      good_frontend_def example_kernel_def Let_def)

subsection \<open>The caches the member functions build\<close>

text \<open>
  \<^verbatim>\<open>_translateKernel\<close> stores every translated subkernel without setting its pointer
  \<^verbatim>\<open>subkernel\<close> to the PTX subkernel, and no other function of the file writes that
  pointer. \<^verbatim>\<open>_specializeTranslation\<close> dereferences it in the call of \<^verbatim>\<open>linkLLVMModule\<close>,
  before it stores anything. So on every reachable cache the pointer is null, no
  specialization ever completes, and the translation cache and the store of
  translations stay empty (\<open>untranslated\<close>).
\<close>

lemma untranslated_initial_cache: "untranslated (initial_cache w i j d n)"
  by (simp add: untranslated_def initial_cache_def)

lemma untranslated_members:
  "untranslated s \<Longrightarrow>
   untranslated (s\<lparr>DynamicTranslationCache.warpSize := w, subkernelid := i, subkernelId := j,
                   DynamicTranslationCache.device := d\<rparr>)"
  by (simp add: untranslated_def)

lemma untranslated_loadModule:
  "untranslated s \<Longrightarrow> loadModule moduleName' module' device' s = Returns loaded s' \<Longrightarrow> untranslated s'"
  by (auto simp: untranslated_def loadModule_def)

lemma untranslated_translateSubkernels:
  "untranslated s \<Longrightarrow>
   translateSubkernels env translatedKernel subs s = Returns u s' \<or>
   translateSubkernels env translatedKernel subs s = Throws message s' \<Longrightarrow>
   untranslated s'"
proof (induction subs arbitrary: s)
  case Nil
  then show ?case by simp
next
  case (Cons subkernel_it rest)
  let ?s1 = "s\<lparr>subkernelsToKernel := (subkernelsToKernel s)(fst subkernel_it \<mapsto> translatedKernel),
                pipelineRuns := pipelineRuns s @ [fst subkernel_it]\<rparr>"
  have s1: "untranslated ?s1" using Cons.prems(1) by (simp add: untranslated_def)
  show ?case
  proof (cases "translateSubkernel env (fst subkernel_it) (snd subkernel_it)")
    case (Translated function' metadata)
    show ?thesis
    proof (cases "translatedKernels ?s1 translatedKernel")
      case None
      with Translated Cons.prems(2) show ?thesis by (simp add: Let_def)
    next
      case (Some tk)
      let ?s2 = "?s1\<lparr>translatedKernels := (translatedKernels ?s1)(translatedKernel \<mapsto>
                    tk\<lparr>TranslatedKernel.subkernels :=
                          (TranslatedKernel.subkernels tk)(subkernelId ?s1 \<mapsto>
                             \<lparr>TranslatedSubkernel.llvmFunction = function',
                              TranslatedSubkernel.metadataPtr = Some metadata,
                              subkernelPtr = None, translationsMap = Map.empty\<rparr>),
                        TranslatedKernel.metadataPtr := Some metadata\<rparr>)\<rparr>"
      have s2: "untranslated ?s2"
        using s1 Some by (auto simp: untranslated_def split: if_splits)
      have "translateSubkernels env translatedKernel (subkernel_it # rest) s =
            translateSubkernels env translatedKernel rest ?s2"
        using Translated Some by (simp add: Let_def)
      with Cons.prems(2) Cons.IH [OF s2] show ?thesis by simp
    qed
  next
    case (PipelineThrows message')
    with Cons.prems(2) have "s' = ?s1" by (simp add: Let_def)
    with s1 show ?thesis by simp
  next
    case (PipelineAborts e)
    with Cons.prems(2) show ?thesis by (simp add: Let_def)
  qed
qed

lemma untranslated_registerKernel:
  assumes "untranslated s"
      and "registerKernel env kernel' s = Returns u s' \<or> registerKernel env kernel' s = Throws message s'"
  shows "untranslated s'"
proof (cases "modules s (moduleName kernel')")
  case None
  with assms(2) show ?thesis by (simp add: registerKernel_def)
next
  case (Some module')
  show ?thesis
  proof (cases "ModuleMetadata.kernels module' (DynamicMulticoreKernel.name kernel')")
    case (Some translatedKernel)
    with \<open>modules s (moduleName kernel') = Some module'\<close> assms show ?thesis
      by (simp add: registerKernel_def)
  next
    case None
    let ?p = "nextObject s"
    let ?s1 = "s\<lparr>translatedKernels := (translatedKernels s)(?p \<mapsto>
                    \<lparr>llvmModule = Suc ?p, kernelPtr = address kernel',
                     TranslatedKernel.metadataPtr = None, localMemorySize = 0,
                     sharedMemorySize = 0, TranslatedKernel.subkernels = Map.empty\<rparr>),
                  kernelObjects := (kernelObjects s)(address kernel' \<mapsto> kernel'),
                  nextObject := ?p + 2,
                  DynamicTranslationCache.kernels :=
                    (DynamicTranslationCache.kernels s)(address kernel' \<mapsto> ?p)\<rparr>"
    have s1: "untranslated ?s1"
      using assms(1) by (auto simp: untranslated_def split: if_splits)
    have run: "registerKernel env kernel' s = translateKernel env ?p ?s1"
      using None \<open>modules s (moduleName kernel') = Some module'\<close>
      by (simp add: registerKernel_def Let_def)
    have "translateKernel env ?p ?s1 =
          translateSubkernels env ?p (DynamicMulticoreKernel.subkernels kernel') ?s1"
      by (simp add: translateKernel_def)
    with run assms(2) untranslated_translateSubkernels [OF s1] show ?thesis by simp
  qed
qed

lemma untranslated_specializeTranslation:
  assumes u: "untranslated s"
  shows "specializeTranslation env translatedKernel subkernelId' warpSize' s \<noteq> Returns translation s'"
    and "specializeTranslation env translatedKernel subkernelId' warpSize' s = Throws message s' \<Longrightarrow>
         untranslated s'"
proof -
  show "specializeTranslation env translatedKernel subkernelId' warpSize' s \<noteq> Returns translation s'"
  proof (cases "translatedKernels s translatedKernel")
    case None
    then show ?thesis by (simp add: specializeTranslation_def)
  next
    case (Some tk)
    have "subkernelPtr subkernel = None" if "TranslatedKernel.subkernels tk subkernelId' = Some subkernel"
      for subkernel
      using u Some that by (auto simp: untranslated_def)
    then show ?thesis
      using Some by (auto simp: specializeTranslation_def Let_def split: option.splits)
  qed
  show "untranslated s'"
    if t: "specializeTranslation env translatedKernel subkernelId' warpSize' s = Throws message s'"
  proof -
    from t obtain tk where tk: "translatedKernels s translatedKernel = Some tk"
      by (auto simp: specializeTranslation_def split: option.splits)
    let ?unwound = "s\<lparr>translatedKernels := (translatedKernels s)(translatedKernel \<mapsto>
                 tk\<lparr>TranslatedKernel.subkernels := (TranslatedKernel.subkernels tk)(subkernelId' \<mapsto>
                      (case TranslatedKernel.subkernels tk subkernelId' of
                         None \<Rightarrow> \<lparr>TranslatedSubkernel.llvmFunction = 0,
                                   TranslatedSubkernel.metadataPtr = None,
                                   subkernelPtr = None, translationsMap = Map.empty\<rparr>
                       | Some subkernel \<Rightarrow> subkernel))\<rparr>),
               nextObject := Suc (nextObject s)\<rparr>"
    from t tk have s': "s' = ?unwound"
      by (simp add: specializeTranslation_def Let_def split: if_splits option.splits)
    have "untranslated ?unwound"
      using u tk by (auto simp: untranslated_def split: if_splits option.splits)
    with s' show ?thesis by simp
  qed
qed

lemma untranslated_lookupTranslation: "untranslated s \<Longrightarrow> lookupTranslation s subkernelId' warpsize = 0"
  by (simp add: untranslated_def lookupTranslation_def)

lemma untranslated_getOrInsertTranslation:
  assumes u: "untranslated s"
  shows "getOrInsertTranslation env warpsize subkernelId' specialization s \<noteq> Returns translation s'"
    and "getOrInsertTranslation env warpsize subkernelId' specialization s = Throws message s' \<Longrightarrow>
         untranslated s'"
  using untranslated_specializeTranslation [OF u] untranslated_lookupTranslation [OF u]
  by (auto simp: getOrInsertTranslation_def Let_def split: option.splits)

lemma reachable_untranslated: "reachable s \<Longrightarrow> untranslated s"
proof (induction rule: reachable.induct)
  case constructed
  show ?case by (rule untranslated_initial_cache)
next
  case (members s)
  then show ?case by (simp add: untranslated_members)
next
  case (loadModule_returns s)
  then show ?case by (blast intro: untranslated_loadModule)
next
  case (registerKernel_returns s)
  then show ?case by (blast intro: untranslated_registerKernel)
next
  case (registerKernel_throws s)
  then show ?case by (blast intro: untranslated_registerKernel)
next
  case (getOrInsertTranslation_returns s)
  then show ?case using untranslated_getOrInsertTranslation(1) by blast
next
  case (getOrInsertTranslation_throws s)
  then show ?case using untranslated_getOrInsertTranslation(2) by blast
qed







text \<open>
  Remark. The cache \<open>example_cache 1 0\<close> is built by hand and is not reachable: it holds a
  translated subkernel whose pointer to the PTX subkernel is set. On it the two calls
  \<open>getOrInsertTranslation(2, 7, 0)\<close> both miss and return two translations: the lookup
  reads the parameters \<^verbatim>\<open>subkernelId\<close> and \<^verbatim>\<open>warpsize\<close>, the store writes under the members
  \<^verbatim>\<open>subkernelid\<close> and \<^verbatim>\<open>warpSize\<close>.
\<close>

lemma getOrInsertTranslation_keys:
  "(case getOrInsertTranslation good_backend 2 7 0 (example_cache 1 0) of
      Returns t1 s1 \<Rightarrow>
        (case getOrInsertTranslation good_backend 2 7 0 s1 of
           Returns t2 s2 \<Rightarrow>
             Some (t1, t2, [cached s1 7 2, cached s1 0 1], [cached s2 7 2, cached s2 0 1])
         | Throws message s2 \<Rightarrow> None
         | Aborts e \<Rightarrow> None)
    | Throws message s1 \<Rightarrow> None
    | Aborts e \<Rightarrow> None) =
   Some (20, 21, [None, Some 20], [None, Some 21])"
  by (simp add: getOrInsertTranslation_def lookupTranslation_def specializeTranslation_def
      example_cache_def good_backend_def int_double_kernel_def emptyModule_def cached_def Let_def)

lemma example_cache_not_reachable: "\<not> reachable (example_cache memberWarpSize memberSubkernelid)"
proof
  assume "reachable (example_cache memberWarpSize memberSubkernelid)"
  then have "untranslated (example_cache memberWarpSize memberSubkernelid)"
    by (rule reachable_untranslated)
  then have "\<forall>tk subkernel.
      translatedKernels (example_cache memberWarpSize memberSubkernelid) 10 = Some tk \<longrightarrow>
      TranslatedKernel.subkernels tk 7 = Some subkernel \<longrightarrow> subkernelPtr subkernel = None"
    unfolding untranslated_def by blast
  then show False
    by (simp add: example_cache_def)
qed

subsection \<open>Failures of a specialization\<close>








text \<open>What also holds of every cache: a hit returns the cached pointer and leaves the
  cache as it was; the answer of the verification after JIT compilation is only
  printed; and a translation built after a miss is found again by the next lookup when
  the members \<^verbatim>\<open>subkernelid\<close> and \<^verbatim>\<open>warpSize\<close> happen to equal the arguments.\<close>

lemma getOrInsertTranslation_hit:
  "lookupTranslation s subkernelId' warpsize \<noteq> 0 \<Longrightarrow>
   getOrInsertTranslation env warpsize subkernelId' specialization s =
     Returns (lookupTranslation s subkernelId' warpsize) s"
  by (simp add: getOrInsertTranslation_def)

lemma linkLLVMModule_verifyFinal:
  "linkLLVMModule (env\<lparr>verifyFinal := b\<rparr>) gs device' = linkLLVMModule env gs device'"
  by (induction gs) simp_all

lemma getOrInsertTranslation_verifyFinal:
  "getOrInsertTranslation (env\<lparr>verifyFinal := b\<rparr>) warpsize subkernelId' specialization s =
   getOrInsertTranslation env warpsize subkernelId' specialization s"
  by (simp add: getOrInsertTranslation_def specializeTranslation_def linkLLVMModule_verifyFinal
      Let_def split: option.splits)

lemma getOrInsertTranslation_miss_consistent:
  assumes "getOrInsertTranslation env warpsize subkernelId' specialization s = Returns translation s'"
      and "lookupTranslation s subkernelId' warpsize = 0"
      and "subkernelid s = subkernelId'" and "DynamicTranslationCache.warpSize s = warpsize"
  shows "cached s' subkernelId' warpsize = Some translation \<and> translation = nextObject s"
  using assms
  by (auto simp: getOrInsertTranslation_def specializeTranslation_def Let_def cached_def
      split: if_splits option.splits)

end
